theory Spec2Isabelle
  imports Main "HOL-Library.Extended_Nat" "HOL-Library.Sublist"
begin

section \<open>Data model\<close>

text \<open>
  The two programs \<^verbatim>\<open>generator.js\<close> (secp256k1 account) and \<^verbatim>\<open>sol-generator.js\<close>
  (Ed25519 account) are thin pipelines over library calls. A Buffer is a list of bytes;
  a JavaScript string that reaches a hash or the key derivation is represented by the
  UTF-8 bytes Node feeds to the primitive, so string concatenation \<^verbatim>\<open>+\<close> is list
  append. Isabelle's \<open>char\<close> is an 8-bit byte, hence both are \<open>char list\<close>.
\<close>

type_synonym bytes = "char list"

text \<open>
  The cryptographic primitives live in Node's \<^verbatim>\<open>crypto\<close> module, in \<^verbatim>\<open>ethers\<close> and in
  \<^verbatim>\<open>@noble/ed25519\<close>, none of which is part of the repository. They are taken as
  parameters: every theorem below holds for any functions put in their place.
  \<open>scrypt P S N r p dkLen\<close> follows the argument order of RFC 7914;
  \<open>secp256k1_public d\<close> stands for the 64 bytes X\<parallel>Y of the point d\<cdot>G;
  \<open>maxmem\<close> is the memory ceiling the scrypt binding is configured with.
\<close>

record primitives =
  sha256 :: "bytes \<Rightarrow> bytes"
  scrypt :: "bytes \<Rightarrow> bytes \<Rightarrow> nat \<Rightarrow> nat \<Rightarrow> nat \<Rightarrow> nat \<Rightarrow> bytes"
  keccak256 :: "bytes \<Rightarrow> bytes"
  secp256k1_public :: "nat \<Rightarrow> bytes"
  ed25519_public :: "bytes \<Rightarrow> bytes"
  maxmem :: nat

text \<open>The error kinds of the specification; a library call that throws returns one of them.\<close>

datatype error = InvalidParameter | ResourceLimitExceeded | InvalidKeyMaterial

section \<open>JavaScript numbers\<close>

text \<open>
  \<^verbatim>\<open>2 ** costParameter\<close> is computed on IEEE doubles. For an integer exponent up to 1023
  the power of two is exact; from 1024 on the result is \<^verbatim>\<open>Infinity\<close>. The cost parameter
  reaches the pipeline only through \<^verbatim>\<open>getNumber\<close>, which resolves positive integers, so
  it is a \<open>nat\<close> here.
\<close>

definition js_pow2 :: "nat \<Rightarrow> enat" where
  "js_pow2 costParameter = (if costParameter < 1024 then enat (2 ^ costParameter) else \<infinity>)"

section \<open>Node's scrypt binding\<close>

fun is_pow2 :: "nat \<Rightarrow> bool" where
  "is_pow2 n = (if n < 2 then False else if n = 2 then True else even n \<and> is_pow2 (n div 2))"

text \<open>
  Modelled from the spec: \<^verbatim>\<open>crypto.scryptSync\<close> belongs to Node, not to the repository.
  Section 4.2 of the specification fixes its contract: the memory bound \<open>128 * N * r\<close> must
  fit the configured ceiling, otherwise the call fails with ResourceLimitExceeded; \<open>N\<close> must
  be a power of two greater than 1, otherwise InvalidParameter; the output is the RFC 7914
  function at the given parameters.
\<close>

definition scryptSync ::
  "primitives \<Rightarrow> bytes \<Rightarrow> bytes \<Rightarrow> nat \<Rightarrow> enat \<Rightarrow> nat \<Rightarrow> nat \<Rightarrow> error + bytes" where
  "scryptSync P password salt keylen N r p =
     (case N of
        \<infinity> \<Rightarrow> Inl ResourceLimitExceeded
      | enat n \<Rightarrow>
          if maxmem P < 128 * n * r then Inl ResourceLimitExceeded
          else if \<not> is_pow2 n then Inl InvalidParameter
          else Inr (scrypt P password salt n r p keylen))"

section \<open>The shared prefix of the two pipelines\<close>

text \<open>
  Both files contain their own copy of \<^verbatim>\<open>generateWalletFromPassword\<close>. The local constants
  \<^verbatim>\<open>combinedSalt\<close>, \<^verbatim>\<open>N\<close> and \<^verbatim>\<open>derivedKey\<close> of each copy are modelled separately, with the
  prefix \<open>evm_\<close> for \<^verbatim>\<open>generator.js\<close> and \<open>sol_\<close> for \<^verbatim>\<open>sol-generator.js\<close>.
\<close>

definition evm_combinedSalt :: "primitives \<Rightarrow> bytes \<Rightarrow> bytes \<Rightarrow> bytes" where
  "evm_combinedSalt P userSalt applicationSalt = sha256 P (userSalt @ applicationSalt)"

definition evm_N :: "nat \<Rightarrow> enat" where
  "evm_N costParameter = js_pow2 costParameter"

definition evm_derivedKey ::
  "primitives \<Rightarrow> bytes \<Rightarrow> bytes \<Rightarrow> bytes \<Rightarrow> nat \<Rightarrow> error + bytes" where
  "evm_derivedKey P password userSalt applicationSalt costParameter =
     scryptSync P password (evm_combinedSalt P userSalt applicationSalt) 32
       (evm_N costParameter) 8 1"

definition sol_combinedSalt :: "primitives \<Rightarrow> bytes \<Rightarrow> bytes \<Rightarrow> bytes" where
  "sol_combinedSalt P userSalt applicationSalt = sha256 P (userSalt @ applicationSalt)"

definition sol_N :: "nat \<Rightarrow> enat" where
  "sol_N costParameter = js_pow2 costParameter"

definition sol_derivedKey ::
  "primitives \<Rightarrow> bytes \<Rightarrow> bytes \<Rightarrow> bytes \<Rightarrow> nat \<Rightarrow> error + bytes" where
  "sol_derivedKey P password userSalt applicationSalt costParameter =
     scryptSync P password (sol_combinedSalt P userSalt applicationSalt) 32
       (sol_N costParameter) 8 1"

section \<open>Byte and text encodings\<close>

text \<open>\<^verbatim>\<open>Buffer.toString('hex')\<close>: two lowercase hexadecimal digits per byte.\<close>

definition hexdigit :: "nat \<Rightarrow> char" where
  "hexdigit n = (if n < 10 then char_of (48 + n) else char_of (87 + n))"

definition toString_hex :: "bytes \<Rightarrow> string" where
  "toString_hex buf =
     concat (map (\<lambda>b. [hexdigit ((of_char b :: nat) div 16), hexdigit ((of_char b :: nat) mod 16)]) buf)"

text \<open>Reading a hexadecimal string back into bytes, as a library does with a \<^verbatim>\<open>0x\<close> key.\<close>

definition hexval :: "char \<Rightarrow> nat option" where
  "hexval c =
     (let k = (of_char c :: nat) in
      if 48 \<le> k \<and> k \<le> 57 then Some (k - 48)
      else if 97 \<le> k \<and> k \<le> 102 then Some (k - 87)
      else if 65 \<le> k \<and> k \<le> 70 then Some (k - 55)
      else None)"

fun parse_hex :: "string \<Rightarrow> bytes option" where
  "parse_hex [] = Some []"
| "parse_hex [c] = None"
| "parse_hex (c # d # rest) =
     (case (hexval c, hexval d, parse_hex rest) of
        (Some hi, Some lo, Some bs) \<Rightarrow> Some (char_of (16 * hi + lo) # bs)
      | _ \<Rightarrow> None)"

definition getBytes :: "string \<Rightarrow> bytes option" where
  "getBytes s = (if take 2 s = ''0x'' then parse_hex (drop 2 s) else None)"

text \<open>A byte string read as a big-endian unsigned integer, and back without leading zeros.\<close>

definition be_nat :: "bytes \<Rightarrow> nat" where
  "be_nat bs = foldl (\<lambda>a b. 256 * a + of_char b) 0 bs"

fun nat_to_bytes :: "nat \<Rightarrow> bytes" where
  "nat_to_bytes n = (if n = 0 then [] else nat_to_bytes (n div 256) @ [char_of (n mod 256)])"

text \<open>ASCII case mapping, which is all \<^verbatim>\<open>toLowerCase\<close> and \<^verbatim>\<open>toUpperCase\<close> do on hexadecimal text.\<close>

definition toLowerCase :: "char \<Rightarrow> char" where
  "toLowerCase c =
     (if 65 \<le> (of_char c :: nat) \<and> (of_char c :: nat) \<le> 90 then char_of ((of_char c :: nat) + 32) else c)"

definition toUpperCase :: "char \<Rightarrow> char" where
  "toUpperCase c =
     (if 97 \<le> (of_char c :: nat) \<and> (of_char c :: nat) \<le> 122 then char_of ((of_char c :: nat) - 32) else c)"

definition is_lower_hex :: "char \<Rightarrow> bool" where
  "is_lower_hex c =
     ((48 \<le> (of_char c :: nat) \<and> (of_char c :: nat) \<le> 57)
      \<or> (97 \<le> (of_char c :: nat) \<and> (of_char c :: nat) \<le> 102))"

section \<open>The secp256k1 account of ethers\<close>

definition curve_order :: nat where
  "curve_order = 0xFFFFFFFFFFFFFFFFFFFFFFFFFFFFFFFEBAAEDCE6AF48A03BBFD25E8CD0364141"

text \<open>
  The nibble of the digest that stands at position \<open>i\<close> of the 40-character address:
  the high half of byte \<open>i div 2\<close> for even \<open>i\<close>, the low half for odd \<open>i\<close>.
\<close>

definition nibble :: "bytes \<Rightarrow> nat \<Rightarrow> nat" where
  "nibble digest i =
     (if i div 2 < length digest
      then (if even i then (of_char (digest ! (i div 2)) :: nat) div 16
            else (of_char (digest ! (i div 2)) :: nat) mod 16)
      else 0)"

text \<open>
  Modelled from the spec: the mixed-case checksum of ethers (\<^verbatim>\<open>getAddress\<close>) is not part of
  the repository. Section 4.3 gives the algorithm: hash the lowercase hexadecimal address
  string with Keccak-256 and uppercase each hexadecimal digit whose nibble in the digest is
  at least 8. \<open>toChecksum\<close> works on the 40 characters, \<open>getAddress\<close> on the \<^verbatim>\<open>0x\<close>-prefixed
  string, which it lowercases first.
\<close>

definition toChecksum :: "primitives \<Rightarrow> string \<Rightarrow> string" where
  "toChecksum P h =
     map (\<lambda>(i, c). if 8 \<le> nibble (keccak256 P h) i then toUpperCase c else c) (List.enumerate 0 h)"

definition getAddress :: "primitives \<Rightarrow> string \<Rightarrow> string" where
  "getAddress P addr = ''0x'' @ toChecksum P (drop 2 (map toLowerCase addr))"

record wallet =
  privateKey :: string
  publicKey :: bytes
  address :: string

text \<open>
  Modelled from the spec: \<^verbatim>\<open>computeAddress\<close> and the \<^verbatim>\<open>Wallet\<close> constructor of ethers are
  not part of the repository. Section 4.3, variant A: the address is the checksummed
  hexadecimal form of the last 20 bytes of the Keccak-256 hash of the 64 bytes X\<parallel>Y; the
  key is a 32-byte big-endian scalar that must be nonzero and less than the curve order,
  otherwise the constructor fails with InvalidKeyMaterial and never reduces the scalar; the
  public key is the scalar multiple of the generator.
\<close>

definition computeAddress :: "primitives \<Rightarrow> bytes \<Rightarrow> string" where
  "computeAddress P pub =
     (let digest = keccak256 P pub
      in getAddress P (''0x'' @ toString_hex (drop (length digest - 20) digest)))"

definition Wallet :: "primitives \<Rightarrow> string \<Rightarrow> error + wallet" where
  "Wallet P key =
     (case getBytes key of
        None \<Rightarrow> Inl InvalidKeyMaterial
      | Some scalar \<Rightarrow>
          if length scalar \<noteq> 32 then Inl InvalidKeyMaterial
          else if be_nat scalar = 0 \<or> curve_order \<le> be_nat scalar then Inl InvalidKeyMaterial
          else
            let pub = secp256k1_public P (be_nat scalar)
            in Inr \<lparr>privateKey = ''0x'' @ toString_hex scalar,
                    publicKey = pub,
                    address = computeAddress P pub\<rparr>)"

section \<open>Base-58 text of the bs58 package\<close>

definition alphabet :: string where
  "alphabet = ''123456789ABCDEFGHJKLMNPQRSTUVWXYZabcdefghijkmnopqrstuvwxyz''"

fun digits58 :: "nat \<Rightarrow> nat list" where
  "digits58 n = (if n = 0 then [] else digits58 (n div 58) @ [n mod 58])"

definition from_digits58 :: "nat list \<Rightarrow> nat" where
  "from_digits58 ds = foldl (\<lambda>a d. 58 * a + d) 0 ds"

definition is_zero_byte :: "char \<Rightarrow> bool" where
  "is_zero_byte b = (b = CHR 0x00)"

fun decode_digits :: "string \<Rightarrow> nat list option" where
  "decode_digits [] = Some []"
| "decode_digits (c # cs) =
     (case (map_of (zip alphabet [0..<58]) c, decode_digits cs) of
        (Some d, Some ds) \<Rightarrow> Some (d # ds)
      | _ \<Rightarrow> None)"

text \<open>
  Modelled from the spec: \<^verbatim>\<open>bs58\<close> is not part of the repository; the specification names the
  encoding base-58. Each leading zero byte becomes the digit 0 (the character \<^verbatim>\<open>1\<close>), the
  bytes are read as a big-endian number and written in base 58 over the alphabet above.
  Decoding reverses both steps and rejects text outside the alphabet.
\<close>

definition bs58_encode :: "bytes \<Rightarrow> string" where
  "bs58_encode source =
     map (\<lambda>d. alphabet ! d)
       (replicate (length (takeWhile is_zero_byte source)) 0 @ digits58 (be_nat source))"

definition bs58_decode :: "string \<Rightarrow> bytes option" where
  "bs58_decode text =
     (case decode_digits text of
        None \<Rightarrow> None
      | Some ds \<Rightarrow>
          Some (replicate (length (takeWhile (\<lambda>d. d = 0) ds)) (CHR 0x00)
                @ nat_to_bytes (from_digits58 ds)))"

section \<open>\<^verbatim>\<open>generateWalletFromPassword\<close> of \<^verbatim>\<open>generator.js\<close>\<close>

record evm_generated =
  evm_wallet :: wallet
  evm_actualN :: enat

definition evm_generateWalletFromPassword ::
  "primitives \<Rightarrow> bytes \<Rightarrow> bytes \<Rightarrow> bytes \<Rightarrow> nat \<Rightarrow> error + evm_generated" where
  "evm_generateWalletFromPassword P password userSalt applicationSalt costParameter =
     (case evm_derivedKey P password userSalt applicationSalt costParameter of
        Inl e \<Rightarrow> Inl e
      | Inr derivedKey \<Rightarrow>
          (case Wallet P (''0x'' @ toString_hex derivedKey) of
             Inl e \<Rightarrow> Inl e
           | Inr w \<Rightarrow> Inr \<lparr>evm_wallet = w, evm_actualN = evm_N costParameter\<rparr>))"

section \<open>\<^verbatim>\<open>generateWalletFromPassword\<close> of \<^verbatim>\<open>sol-generator.js\<close>\<close>

text \<open>
  \<^verbatim>\<open>getPublicKey\<close> of \<^verbatim>\<open>@noble/ed25519\<close> is the Ed25519 public-key derivation from the seed;
  the specification gives it no failure mode.
\<close>

definition getPublicKey :: "primitives \<Rightarrow> bytes \<Rightarrow> bytes" where
  "getPublicKey P seed = ed25519_public P seed"

record sol_generated =
  sol_privateKey :: string
  sol_publicKey :: string
  sol_address :: string
  sol_actualN :: enat

definition sol_generateWalletFromPassword ::
  "primitives \<Rightarrow> bytes \<Rightarrow> bytes \<Rightarrow> bytes \<Rightarrow> nat \<Rightarrow> error + sol_generated" where
  "sol_generateWalletFromPassword P password userSalt applicationSalt costParameter =
     (case sol_derivedKey P password userSalt applicationSalt costParameter of
        Inl e \<Rightarrow> Inl e
      | Inr derivedKey \<Rightarrow>
          let publicKeyBytes = getPublicKey P derivedKey;
              publicKey = bs58_encode publicKeyBytes;
              privateKeyBytes = derivedKey @ publicKeyBytes;
              privateKey = bs58_encode privateKeyBytes
          in Inr \<lparr>sol_privateKey = privateKey, sol_publicKey = publicKey,
                  sol_address = publicKey, sol_actualN = sol_N costParameter\<rparr>)"

section \<open>Reading the cost parameter\<close>

text \<open>
  The white space of ECMAScript (\<^verbatim>\<open>WhiteSpace\<close> and \<^verbatim>\<open>LineTerminator\<close>), each character in
  UTF-8: TAB, LF, VT, FF, CR, SP, U+00A0, U+1680, U+2000 to U+200A, U+2028, U+2029, U+202F,
  U+205F, U+3000 and U+FEFF.
\<close>

definition js_whitespace :: "string list" where
  "js_whitespace =
     [ [CHR 0x09], [CHR 0x0A], [CHR 0x0B], [CHR 0x0C], [CHR 0x0D], [CHR 0x20],
      [CHR 0xC2, CHR 0xA0], [CHR 0xE1, CHR 0x9A, CHR 0x80],
      [CHR 0xE2, CHR 0x80, CHR 0x80], [CHR 0xE2, CHR 0x80, CHR 0x81],
      [CHR 0xE2, CHR 0x80, CHR 0x82], [CHR 0xE2, CHR 0x80, CHR 0x83],
      [CHR 0xE2, CHR 0x80, CHR 0x84], [CHR 0xE2, CHR 0x80, CHR 0x85],
      [CHR 0xE2, CHR 0x80, CHR 0x86], [CHR 0xE2, CHR 0x80, CHR 0x87],
      [CHR 0xE2, CHR 0x80, CHR 0x88], [CHR 0xE2, CHR 0x80, CHR 0x89],
      [CHR 0xE2, CHR 0x80, CHR 0x8A], [CHR 0xE2, CHR 0x80, CHR 0xA8],
      [CHR 0xE2, CHR 0x80, CHR 0xA9], [CHR 0xE2, CHR 0x80, CHR 0xAF],
      [CHR 0xE2, CHR 0x81, CHR 0x9F], [CHR 0xE3, CHR 0x80, CHR 0x80],
      [CHR 0xEF, CHR 0xBB, CHR 0xBF] ]"

function strip_leading :: "string list \<Rightarrow> string \<Rightarrow> string" where
  "strip_leading ws s =
     (case find (\<lambda>w. w \<noteq> [] \<and> prefix w s) ws of
        None \<Rightarrow> s
      | Some w \<Rightarrow> strip_leading ws (drop (length w) s))"
  by pat_completeness auto
termination
proof (relation "measure (\<lambda>(ws, s). length s)")
  show "wf (measure (\<lambda>(ws, s). length s))"
    by simp
next
  fix ws :: "string list" and s w :: string
  assume "find (\<lambda>w. w \<noteq> [] \<and> prefix w s) ws = Some w"
  then have "w \<noteq> []" and "prefix w s"
    by (auto simp: find_Some_iff)
  then have "0 < length w" and "length w \<le> length s"
    by (auto simp: prefix_length_le)
  then have "length s - length w < length s"
    by arith
  then show "((ws, drop (length w) s), (ws, s)) \<in> measure (\<lambda>(ws, s). length s)"
    by simp
qed

definition js_trimStart :: "string \<Rightarrow> string" where
  "js_trimStart s = strip_leading js_whitespace s"

definition js_trimEnd :: "string \<Rightarrow> string" where
  "js_trimEnd s = rev (strip_leading (map rev js_whitespace) (rev s))"

definition js_trim :: "string \<Rightarrow> string" where
  "js_trim s = js_trimEnd (js_trimStart s)"

definition is_digit :: "char \<Rightarrow> bool" where
  "is_digit c = (48 \<le> (of_char c :: nat) \<and> (of_char c :: nat) \<le> 57)"

definition decimal :: "string \<Rightarrow> nat" where
  "decimal ds = foldl (\<lambda>a c. 10 * a + ((of_char c :: nat) - 48)) 0 ds"

text \<open>
  \<^verbatim>\<open>parseInt(string, 10)\<close>: skip leading white space, take an optional sign, then the
  longest run of decimal digits; without a digit the result is \<^verbatim>\<open>NaN\<close>, which is \<open>None\<close>
  here. The value is kept as an exact integer; the double that JavaScript holds has the
  same sign, which is all \<^verbatim>\<open>getNumber\<close> looks at, and \<^verbatim>\<open>-0\<close> compares as 0. Up to
  \<open>2 ^ 53\<close> the double is the integer itself. Above it JavaScript holds a nearby double,
  again above \<open>2 ^ 53\<close>: an exponent at which \<^verbatim>\<open>2 ** e\<close> is \<^verbatim>\<open>Infinity\<close> all the same. What
  is proved about accepted answers is stated for values up to \<open>2 ^ 53\<close>.
\<close>

definition js_parseInt :: "string \<Rightarrow> int option" where
  "js_parseInt string =
     (let s = js_trimStart string;
          sign = (if take 1 s = ''-'' then - 1 else (1 :: int));
          s' = (if take 1 s = ''-'' \<or> take 1 s = ''+'' then drop 1 s else s);
          z = takeWhile is_digit s'
      in if z = [] then None else Some (sign * int (decimal z)))"

text \<open>What the process writes to standard error before it exits with a status.\<close>

datatype stderr_text = Literal string | ErrorMessage error

datatype exit = Exit nat stderr_text

text \<open>
  \<^verbatim>\<open>getNumber\<close> is the same in both files. \<open>Inl\<close> is \<^verbatim>\<open>process.exit(1)\<close> after the error
  line; \<open>Inr\<close> is the resolved number, positive by the guard.
\<close>

definition getNumber :: "string \<Rightarrow> exit + nat" where
  "getNumber answer =
     (case js_parseInt (js_trim answer) of
        None \<Rightarrow> Inl (Exit 1 (Literal (CHR 0x0A # ''Error: Please enter a valid positive number'')))
      | Some num \<Rightarrow>
          if num \<le> 0
          then Inl (Exit 1 (Literal (CHR 0x0A # ''Error: Please enter a valid positive number'')))
          else Inr (nat num))"

section \<open>The two \<^verbatim>\<open>main\<close> functions\<close>

text \<open>
  The three secrets are the strings \<^verbatim>\<open>getPassword\<close> resolved, \<open>answer\<close> is the line typed at
  the cost prompt. \<open>Inl\<close> is an exit with a nonzero status and nothing reported; \<open>Inr\<close> is the
  run that reaches the report, writes the log file and ends with \<^verbatim>\<open>process.exit(0)\<close>. Of the
  console output only the lines that carry derived data are kept.
\<close>

definition slice_first3 :: "string \<Rightarrow> string" where
  "slice_first3 s = take 3 s"

definition slice_last3 :: "string \<Rightarrow> string" where
  "slice_last3 s = drop (length s - 3) s"

record evm_report =
  evm_shown_privateKey :: string
  evm_shown_address :: string
  evm_shown_costParameter :: nat
  evm_shown_actualN :: enat
  evm_tmp_log :: string

definition evm_main :: "primitives \<Rightarrow> string \<Rightarrow> string \<Rightarrow> string \<Rightarrow> string \<Rightarrow> exit + evm_report" where
  "evm_main P password userSalt applicationSalt answer =
     (case getNumber answer of
        Inl x \<Rightarrow> Inl x
      | Inr costParameter \<Rightarrow>
          if password = [] \<or> userSalt = [] \<or> applicationSalt = []
          then Inl (Exit 1 (Literal (CHR 0x0A #
                 ''Error: Password, user salt, and application salt are all required'')))
          else
            (case evm_generateWalletFromPassword P password userSalt applicationSalt costParameter of
               Inl e \<Rightarrow> Inl (Exit 1 (ErrorMessage e))
             | Inr g \<Rightarrow>
                 Inr \<lparr>evm_shown_privateKey =
                        slice_first3 (privateKey (evm_wallet g)) @ ''...''
                          @ slice_last3 (privateKey (evm_wallet g)),
                      evm_shown_address = address (evm_wallet g),
                      evm_shown_costParameter = costParameter,
                      evm_shown_actualN = evm_actualN g,
                      evm_tmp_log = privateKey (evm_wallet g)\<rparr>))"

record sol_report =
  sol_shown_privateKey :: string
  sol_shown_address :: string
  sol_shown_costParameter :: nat
  sol_shown_actualN :: enat
  sol_tmp_log :: string

definition sol_main :: "primitives \<Rightarrow> string \<Rightarrow> string \<Rightarrow> string \<Rightarrow> string \<Rightarrow> exit + sol_report" where
  "sol_main P password userSalt applicationSalt answer =
     (case getNumber answer of
        Inl x \<Rightarrow> Inl x
      | Inr costParameter \<Rightarrow>
          if password = [] \<or> userSalt = [] \<or> applicationSalt = []
          then Inl (Exit 1 (Literal (CHR 0x0A #
                 ''Error: Password, user salt, and application salt are all required'')))
          else
            (case sol_generateWalletFromPassword P password userSalt applicationSalt costParameter of
               Inl e \<Rightarrow> Inl (Exit 1 (ErrorMessage e))
             | Inr g \<Rightarrow>
                 Inr \<lparr>sol_shown_privateKey =
                        slice_first3 (sol_privateKey g) @ ''...'' @ slice_last3 (sol_privateKey g),
                      sol_shown_address = sol_address g,
                      sol_shown_costParameter = costParameter,
                      sol_shown_actualN = sol_actualN g,
                      sol_tmp_log = sol_privateKey g\<rparr>))"

section \<open>An instance of the primitives for concrete runs\<close>

text \<open>
  The theorems are stated for arbitrary primitives. To run them on concrete inputs the
  following instance is used. It is not cryptography: every function pads or cuts its
  first argument to the length the real primitive returns (the stand-in for Keccak-256
  complements each byte as well), and the ceiling is the default of Node, 32 MiB.
\<close>

definition pad_to :: "nat \<Rightarrow> bytes \<Rightarrow> bytes" where
  "pad_to n m = take n (m @ replicate n (CHR 0x00))"

definition test_primitives :: primitives where
  "test_primitives =
     \<lparr>sha256 = pad_to 32,
      scrypt = (\<lambda>P S N r p dkLen. pad_to dkLen P),
      keccak256 = (\<lambda>m. map (\<lambda>b. char_of (255 - (of_char b :: nat))) (pad_to 32 m)),
      secp256k1_public = (\<lambda>d. pad_to 64 (nat_to_bytes d)),
      ed25519_public = (\<lambda>seed. pad_to 32 (rev seed)),
      maxmem = 33554432\<rparr>"

text \<open>
  A second process for the same concrete run: its hash agrees with the instance above on the
  concatenation \<^verbatim>\<open>batterystaple\<close> and answers with the empty string everywhere else. It
  stands for whatever else may differ between two processes.
\<close>

definition other_process :: primitives where
  "other_process =
     test_primitives\<lparr>sha256 := (\<lambda>m. if m = ''batterystaple'' then pad_to 32 m else [])\<rparr>"

section \<open>Facts about the instance\<close>

lemma length_pad_to: "length (pad_to n m) = n"
  by (simp add: pad_to_def)

lemma test_sha256_length: "length (sha256 test_primitives m) = 32"
  by (simp add: test_primitives_def length_pad_to)

lemma test_scrypt_length: "length (scrypt test_primitives pw salt N r p dkLen) = dkLen"
  by (simp add: test_primitives_def length_pad_to)

section \<open>The salt combiner\<close>

text \<open>
  C3. For every user salt and application salt, empty ones included, the combined salt is
  the SHA-256 digest of the user salt directly followed by the application salt, with
  nothing between or before them, and it is 32 bytes long. The combiner has no failure
  mode: it returns bytes, not an error or bytes. The length of a digest is the contract of
  the hash, stated as the hypothesis.
\<close>

theorem combinedSalt_sha256_concat:
  assumes "\<And>m. length (sha256 P m) = 32"
  shows "evm_combinedSalt P userSalt applicationSalt = sha256 P (userSalt @ applicationSalt)
       \<and> sol_combinedSalt P userSalt applicationSalt = sha256 P (userSalt @ applicationSalt)
       \<and> length (evm_combinedSalt P userSalt applicationSalt) = 32
       \<and> length (sol_combinedSalt P userSalt applicationSalt) = 32"
  using assms by (simp add: evm_combinedSalt_def sol_combinedSalt_def)

theorem combinedSalt_sha256_concat_witness:
  "evm_combinedSalt test_primitives [] [] = sha256 test_primitives ([] @ [])
   \<and> sol_combinedSalt test_primitives [] [] = sha256 test_primitives ([] @ [])
   \<and> length (evm_combinedSalt test_primitives [] []) = 32
   \<and> length (sol_combinedSalt test_primitives [] []) = 32"
  by (rule combinedSalt_sha256_concat) (rule test_sha256_length)

text \<open>
  C4, as stated: the combiner gives different salts for \<open>(a, b)\<close> and \<open>(b, a)\<close> whenever
  \<open>a \<noteq> b\<close>. It does not: \<^verbatim>\<open>x\<close> and \<^verbatim>\<open>xx\<close> differ, but both orders concatenate to
  \<^verbatim>\<open>xxx\<close>, so the same bytes are hashed.
\<close>

theorem salt_order_counterexample:
  "''x'' \<noteq> ''xx''
   \<and> evm_combinedSalt test_primitives ''x'' ''xx'' = evm_combinedSalt test_primitives ''xx'' ''x''"
  by (simp add: evm_combinedSalt_def)

section \<open>The shared prefix\<close>

text \<open>
  C9. On the same password, user salt, application salt and cost exponent, the pipeline of
  \<^verbatim>\<open>generator.js\<close> and the pipeline of \<^verbatim>\<open>sol-generator.js\<close> compute the same combined salt,
  the same cost factor and the same derived seed (or the same failure of the derivation);
  they differ only in what they build from the seed.
\<close>

theorem shared_prefix_equal:
  "evm_combinedSalt P userSalt applicationSalt = sol_combinedSalt P userSalt applicationSalt
   \<and> evm_N costParameter = sol_N costParameter
   \<and> evm_derivedKey P password userSalt applicationSalt costParameter
       = sol_derivedKey P password userSalt applicationSalt costParameter"
  by (simp add: evm_combinedSalt_def sol_combinedSalt_def evm_N_def sol_N_def
      evm_derivedKey_def sol_derivedKey_def)

text \<open>
  C4, amended: where the hash does not collide on the two concatenations, the combiner
  gives different salts for \<open>(a, b)\<close> and \<open>(b, a)\<close> exactly when \<open>a\<close> followed by \<open>b\<close>
  differs from \<open>b\<close> followed by \<open>a\<close>.
\<close>

theorem salt_order_when_concatenations_differ:
  assumes "inj_on (sha256 P) {a @ b, b @ a}"
  shows "(evm_combinedSalt P a b \<noteq> evm_combinedSalt P b a) = (a @ b \<noteq> b @ a)"
proof (cases "a @ b = b @ a")
  case True
  then show ?thesis by (simp add: evm_combinedSalt_def)
next
  case False
  from assms have "sha256 P (a @ b) = sha256 P (b @ a) \<Longrightarrow> a @ b = b @ a"
    by (rule inj_onD) simp_all
  with False show ?thesis by (auto simp: evm_combinedSalt_def)
qed

section \<open>The derivation engine\<close>

declare is_pow2.simps [simp del]

lemma is_pow2_power: "0 < k \<Longrightarrow> is_pow2 (2 ^ k)"
proof (induction k)
  case 0
  then show ?case by simp
next
  case (Suc k)
  show ?case
  proof (cases "k = 0")
    case True
    then show ?thesis by (simp add: is_pow2.simps [of 2])
  next
    case False
    then have "is_pow2 (2 ^ k)" using Suc.IH by simp
    moreover have "(2::nat) ^ 1 \<le> 2 ^ k"
      using False by (intro power_increasing) auto
    then have "(2::nat) < 2 ^ Suc k"
      by simp
    ultimately show ?thesis
      by (subst is_pow2.simps) simp
  qed
qed

lemma not_is_pow2_one: "\<not> is_pow2 (Suc 0)"
  by (simp add: is_pow2.simps [of "Suc 0"])

lemma scryptSync_pow2:
  "scryptSync P password salt keylen (js_pow2 e) r p =
     (if 1024 \<le> e \<or> maxmem P < 128 * 2 ^ e * r then Inl ResourceLimitExceeded
      else if e = 0 then Inl InvalidParameter
      else Inr (scrypt P password salt (2 ^ e) r p keylen))"
  by (auto simp: scryptSync_def js_pow2_def is_pow2_power not_is_pow2_one)

lemma evm_derivedKey_cases:
  "evm_derivedKey P password userSalt applicationSalt e =
     (if 1024 \<le> e \<or> maxmem P < 128 * 2 ^ e * 8 then Inl ResourceLimitExceeded
      else if e = 0 then Inl InvalidParameter
      else Inr (scrypt P password (evm_combinedSalt P userSalt applicationSalt) (2 ^ e) 8 1 32))"
  by (simp add: evm_derivedKey_def evm_N_def scryptSync_pow2)

lemma sol_derivedKey_cases:
  "sol_derivedKey P password userSalt applicationSalt e =
     (if 1024 \<le> e \<or> maxmem P < 128 * 2 ^ e * 8 then Inl ResourceLimitExceeded
      else if e = 0 then Inl InvalidParameter
      else Inr (scrypt P password (sol_combinedSalt P userSalt applicationSalt) (2 ^ e) 8 1 32))"
  by (simp add: sol_derivedKey_def sol_N_def scryptSync_pow2)

lemma test_maxmem: "maxmem test_primitives = 33554432"
  by (simp add: test_primitives_def)

text \<open>
  C2. For every password, every pair of salts and every valid cost exponent \<open>e\<close> (positive,
  below the 1024 at which \<^verbatim>\<open>2 ** e\<close> stops being a finite double, and within the memory
  ceiling), the derived seed of either pipeline is the scrypt function of RFC 7914 applied to
  the password and the combined salt with cost factor \<open>2 ^ e\<close>, block size 8,
  parallelization 1 and output length 32, and it is 32 bytes long. That scrypt returns as many
  bytes as requested is the contract of the primitive, stated as the last hypothesis.
\<close>

theorem derivedKey_is_scrypt:
  assumes "0 < e" and "e < 1024" and "128 * 2 ^ e * 8 \<le> maxmem P"
    and "\<And>pw s N r p k. length (scrypt P pw s N r p k) = k"
  shows "evm_derivedKey P password userSalt applicationSalt e
           = Inr (scrypt P password (evm_combinedSalt P userSalt applicationSalt) (2 ^ e) 8 1 32)
       \<and> sol_derivedKey P password userSalt applicationSalt e
           = Inr (scrypt P password (sol_combinedSalt P userSalt applicationSalt) (2 ^ e) 8 1 32)
       \<and> length (scrypt P password (evm_combinedSalt P userSalt applicationSalt) (2 ^ e) 8 1 32) = 32
       \<and> length (scrypt P password (sol_combinedSalt P userSalt applicationSalt) (2 ^ e) 8 1 32) = 32"
  using assms by (simp add: evm_derivedKey_cases sol_derivedKey_cases)

theorem derivedKey_is_scrypt_witness:
  "evm_derivedKey test_primitives ''correct horse'' ''battery'' ''staple'' 12
     = Inr (scrypt test_primitives ''correct horse''
             (evm_combinedSalt test_primitives ''battery'' ''staple'') (2 ^ 12) 8 1 32)
   \<and> sol_derivedKey test_primitives ''correct horse'' ''battery'' ''staple'' 12
     = Inr (scrypt test_primitives ''correct horse''
             (sol_combinedSalt test_primitives ''battery'' ''staple'') (2 ^ 12) 8 1 32)
   \<and> length (scrypt test_primitives ''correct horse''
             (evm_combinedSalt test_primitives ''battery'' ''staple'') (2 ^ 12) 8 1 32) = 32
   \<and> length (scrypt test_primitives ''correct horse''
             (sol_combinedSalt test_primitives ''battery'' ''staple'') (2 ^ 12) 8 1 32) = 32"
proof (rule derivedKey_is_scrypt)
  show "0 < (12::nat)" by simp
  show "(12::nat) < 1024" by simp
  show "128 * 2 ^ 12 * 8 \<le> maxmem test_primitives" by (simp add: test_maxmem)
  show "\<And>pw s N r p k. length (scrypt test_primitives pw s N r p k) = k"
    by (rule test_scrypt_length)
qed


lemma getNumber_positive: "getNumber answer = Inr e \<Longrightarrow> 0 < e"
  by (auto simp: getNumber_def split: option.splits if_splits)

lemma evm_generate_derivation_failure:
  "evm_derivedKey P password userSalt applicationSalt e = Inl err
   \<Longrightarrow> evm_generateWalletFromPassword P password userSalt applicationSalt e = Inl err"
  by (simp add: evm_generateWalletFromPassword_def)

lemma sol_generate_derivation_failure:
  "sol_derivedKey P password userSalt applicationSalt e = Inl err
   \<Longrightarrow> sol_generateWalletFromPassword P password userSalt applicationSalt e = Inl err"
  by (simp add: sol_generateWalletFromPassword_def)

lemma evm_main_failure:
  "getNumber answer = Inr e \<Longrightarrow> password \<noteq> [] \<Longrightarrow> userSalt \<noteq> [] \<Longrightarrow> applicationSalt \<noteq> []
   \<Longrightarrow> evm_generateWalletFromPassword P password userSalt applicationSalt e = Inl err
   \<Longrightarrow> evm_main P password userSalt applicationSalt answer = Inl (Exit 1 (ErrorMessage err))"
  by (simp add: evm_main_def)

lemma sol_main_failure:
  "getNumber answer = Inr e \<Longrightarrow> password \<noteq> [] \<Longrightarrow> userSalt \<noteq> [] \<Longrightarrow> applicationSalt \<noteq> []
   \<Longrightarrow> sol_generateWalletFromPassword P password userSalt applicationSalt e = Inl err
   \<Longrightarrow> sol_main P password userSalt applicationSalt answer = Inl (Exit 1 (ErrorMessage err))"
  by (simp add: sol_main_def)

text \<open>
  C6. When the memory bound \<open>128 * N * r\<close> of the cost factor \<open>N = 2 ^ e\<close> exceeds the
  configured ceiling, the derivation fails with ResourceLimitExceeded, so does
  \<^verbatim>\<open>generateWalletFromPassword\<close> of either file, and either \<^verbatim>\<open>main\<close> exits with status 1
  without a report. The cost factor is never cut down to fit: for every exponent \<open>e'\<close> the
  derivation either fails or runs scrypt at exactly \<open>2 ^ e'\<close>.
\<close>

theorem resource_ceiling_enforced:
  assumes "maxmem P < 128 * 2 ^ e * 8"
    and "getNumber answer = Inr e"
    and "password \<noteq> []" and "userSalt \<noteq> []" and "applicationSalt \<noteq> []"
  shows "evm_derivedKey P password userSalt applicationSalt e = Inl ResourceLimitExceeded
       \<and> evm_generateWalletFromPassword P password userSalt applicationSalt e
           = Inl ResourceLimitExceeded
       \<and> evm_main P password userSalt applicationSalt answer
           = Inl (Exit 1 (ErrorMessage ResourceLimitExceeded))
       \<and> sol_generateWalletFromPassword P password userSalt applicationSalt e
           = Inl ResourceLimitExceeded
       \<and> sol_main P password userSalt applicationSalt answer
           = Inl (Exit 1 (ErrorMessage ResourceLimitExceeded))
       \<and> evm_derivedKey P password userSalt applicationSalt e'
           = (if 1024 \<le> e' \<or> maxmem P < 128 * 2 ^ e' * 8 then Inl ResourceLimitExceeded
              else if e' = 0 then Inl InvalidParameter
              else Inr (scrypt P password (evm_combinedSalt P userSalt applicationSalt)
                         (2 ^ e') 8 1 32))"
proof -
  have d: "evm_derivedKey P password userSalt applicationSalt e = Inl ResourceLimitExceeded"
    using assms(1) by (simp add: evm_derivedKey_cases)
  have d': "sol_derivedKey P password userSalt applicationSalt e = Inl ResourceLimitExceeded"
    using assms(1) by (simp add: sol_derivedKey_cases)
  note g = evm_generate_derivation_failure [OF d]
  note g' = sol_generate_derivation_failure [OF d']
  note m = evm_main_failure [OF assms(2-5) g]
  note m' = sol_main_failure [OF assms(2-5) g']
  show ?thesis
    using d g g' m m' by (simp add: evm_derivedKey_cases)
qed

lemma getNumber_16: "getNumber ''16'' = Inr 16"
  by code_simp

theorem resource_ceiling_enforced_witness:
  "evm_derivedKey test_primitives ''correct horse'' ''battery'' ''staple'' 16
     = Inl ResourceLimitExceeded
   \<and> evm_generateWalletFromPassword test_primitives ''correct horse'' ''battery'' ''staple'' 16
     = Inl ResourceLimitExceeded
   \<and> evm_main test_primitives ''correct horse'' ''battery'' ''staple'' ''16''
     = Inl (Exit 1 (ErrorMessage ResourceLimitExceeded))
   \<and> sol_generateWalletFromPassword test_primitives ''correct horse'' ''battery'' ''staple'' 16
     = Inl ResourceLimitExceeded
   \<and> sol_main test_primitives ''correct horse'' ''battery'' ''staple'' ''16''
     = Inl (Exit 1 (ErrorMessage ResourceLimitExceeded))
   \<and> evm_derivedKey test_primitives ''correct horse'' ''battery'' ''staple'' 12
     = Inr (scrypt test_primitives ''correct horse''
             (evm_combinedSalt test_primitives ''battery'' ''staple'') (2 ^ 12) 8 1 32)"
proof -
  have h: "maxmem test_primitives < 128 * 2 ^ 16 * 8"
    by (simp add: test_maxmem)
  show ?thesis
    using resource_ceiling_enforced [OF h getNumber_16,
        of "''correct horse''" "''battery''" "''staple''" 12]
    by (simp add: test_maxmem)
qed

section \<open>The amended salt-order property at a concrete input\<close>

lemma inj_on_pair: "f x \<noteq> f y \<Longrightarrow> inj_on f {x, y}"
  by (auto simp: inj_on_def)

lemma test_sha256: "sha256 test_primitives = pad_to 32"
  by (simp add: test_primitives_def)

theorem salt_order_when_concatenations_differ_witness:
  "(evm_combinedSalt test_primitives ''battery'' ''staple''
      \<noteq> evm_combinedSalt test_primitives ''staple'' ''battery'')
   = (''battery'' @ ''staple'' \<noteq> ''staple'' @ ''battery'')"
proof (rule salt_order_when_concatenations_differ)
  have "sha256 test_primitives (''battery'' @ ''staple'')
      \<noteq> sha256 test_primitives (''staple'' @ ''battery'')"
    unfolding test_sha256 by code_simp
  then show "inj_on (sha256 test_primitives) {''battery'' @ ''staple'', ''staple'' @ ''battery''}"
    by (rule inj_on_pair)
qed

section \<open>The secp256k1 account\<close>

lemma hexval_hexdigit: "n < 16 \<Longrightarrow> hexval (hexdigit n) = Some n"
  by (simp add: hexval_def hexdigit_def Let_def)

lemma parse_hex_toString_hex: "parse_hex (toString_hex bs) = Some bs"
proof (induction bs)
  case Nil
  then show ?case by (simp add: toString_hex_def)
next
  case (Cons b bs)
  have hi: "hexval (hexdigit ((of_char b :: nat) div 16)) = Some ((of_char b :: nat) div 16)"
    by (rule hexval_hexdigit) (simp add: less_mult_imp_div_less)
  have lo: "hexval (hexdigit ((of_char b :: nat) mod 16)) = Some ((of_char b :: nat) mod 16)"
    by (rule hexval_hexdigit) simp
  have unfold: "toString_hex (b # bs)
      = hexdigit ((of_char b :: nat) div 16) # hexdigit ((of_char b :: nat) mod 16) # toString_hex bs"
    by (simp add: toString_hex_def)
  have byte: "char_of (16 * ((of_char b :: nat) div 16) + (of_char b :: nat) mod 16) = b"
    by simp
  show ?case
    unfolding unfold using Cons.IH hi lo byte by simp
qed

lemma getBytes_toString_hex: "getBytes (''0x'' @ toString_hex bs) = Some bs"
  by (simp add: getBytes_def parse_hex_toString_hex)

lemma Wallet_of_seed:
  assumes "length seed = 32"
  shows "Wallet P (''0x'' @ toString_hex seed) =
     (if be_nat seed = 0 \<or> curve_order \<le> be_nat seed then Inl InvalidKeyMaterial
      else Inr \<lparr>privateKey = ''0x'' @ toString_hex seed,
                publicKey = secp256k1_public P (be_nat seed),
                address = computeAddress P (secp256k1_public P (be_nat seed))\<rparr>)"
  unfolding Wallet_def getBytes_toString_hex using assms by (simp add: Let_def)


lemma evm_generate_of_seed:
  assumes "evm_derivedKey P password userSalt applicationSalt e = Inr seed"
    and "length seed = 32"
  shows "evm_generateWalletFromPassword P password userSalt applicationSalt e =
     (if be_nat seed = 0 \<or> curve_order \<le> be_nat seed then Inl InvalidKeyMaterial
      else Inr \<lparr>evm_wallet =
                  \<lparr>privateKey = ''0x'' @ toString_hex seed,
                   publicKey = secp256k1_public P (be_nat seed),
                   address = computeAddress P (secp256k1_public P (be_nat seed))\<rparr>,
                evm_actualN = evm_N e\<rparr>)"
  unfolding evm_generateWalletFromPassword_def assms(1) sum.case Wallet_of_seed [OF assms(2)]
  by simp

text \<open>
  C7. In the pipeline of \<^verbatim>\<open>generator.js\<close>, let the derivation return a 32-byte seed. If the
  seed, read as a big-endian integer, is zero or not less than the order of secp256k1, then
  \<^verbatim>\<open>generateWalletFromPassword\<close> fails with InvalidKeyMaterial and \<^verbatim>\<open>main\<close> exits with
  status 1 without reporting an account. Otherwise the private key of the wallet is the
  hexadecimal text of the seed itself, which reads back as exactly the seed, the public key
  is computed from the unreduced scalar, and the same key is what \<^verbatim>\<open>main\<close> writes to the log
  file.
\<close>

theorem secp256k1_key_range_checked:
  assumes "evm_derivedKey P password userSalt applicationSalt e = Inr seed"
    and "length seed = 32"
    and "getNumber answer = Inr e"
    and "password \<noteq> []" and "userSalt \<noteq> []" and "applicationSalt \<noteq> []"
  shows "evm_generateWalletFromPassword P password userSalt applicationSalt e =
           (if be_nat seed = 0 \<or> curve_order \<le> be_nat seed then Inl InvalidKeyMaterial
            else Inr \<lparr>evm_wallet =
                        \<lparr>privateKey = ''0x'' @ toString_hex seed,
                         publicKey = secp256k1_public P (be_nat seed),
                         address = computeAddress P (secp256k1_public P (be_nat seed))\<rparr>,
                      evm_actualN = evm_N e\<rparr>)
       \<and> evm_main P password userSalt applicationSalt answer =
           (if be_nat seed = 0 \<or> curve_order \<le> be_nat seed
            then Inl (Exit 1 (ErrorMessage InvalidKeyMaterial))
            else Inr \<lparr>evm_shown_privateKey =
                        slice_first3 (''0x'' @ toString_hex seed) @ ''...''
                          @ slice_last3 (''0x'' @ toString_hex seed),
                      evm_shown_address = computeAddress P (secp256k1_public P (be_nat seed)),
                      evm_shown_costParameter = e,
                      evm_shown_actualN = evm_N e,
                      evm_tmp_log = ''0x'' @ toString_hex seed\<rparr>)
       \<and> getBytes (''0x'' @ toString_hex seed) = Some seed"
proof -
  note g = evm_generate_of_seed [OF assms(1,2)]
  have m: "evm_main P password userSalt applicationSalt answer =
      (case evm_generateWalletFromPassword P password userSalt applicationSalt e of
         Inl err \<Rightarrow> Inl (Exit 1 (ErrorMessage err))
       | Inr g \<Rightarrow>
           Inr \<lparr>evm_shown_privateKey =
                  slice_first3 (privateKey (evm_wallet g)) @ ''...''
                    @ slice_last3 (privateKey (evm_wallet g)),
                evm_shown_address = address (evm_wallet g),
                evm_shown_costParameter = e,
                evm_shown_actualN = evm_actualN g,
                evm_tmp_log = privateKey (evm_wallet g)\<rparr>)"
    using assms(3-6) by (simp add: evm_main_def)
  show ?thesis
    unfolding m g getBytes_toString_hex by simp
qed


lemma test_scrypt: "scrypt test_primitives pw s N r p k = pad_to k pw"
  by (simp add: test_primitives_def)

lemma test_evm_derivedKey_12:
  "evm_derivedKey test_primitives pw us as 12 = Inr (pad_to 32 pw)"
  by (simp add: evm_derivedKey_cases test_maxmem test_scrypt)

lemma getNumber_12: "getNumber ''12'' = Inr 12"
  by code_simp

lemma pad_to_id: "length m = n \<Longrightarrow> pad_to n m = m"
  by (simp add: pad_to_def)

lemma be_nat_snoc: "be_nat (bs @ [b]) = 256 * be_nat bs + of_char b"
  by (simp add: be_nat_def)

lemma be_nat_replicate_zero: "be_nat (replicate n (CHR 0x00)) = 0"
proof (induction n)
  case 0
  then show ?case by (simp add: be_nat_def)
next
  case (Suc n)
  have "replicate (Suc n) (CHR 0x00) = replicate n (CHR 0x00) @ [CHR 0x00]"
    by (simp add: replicate_append_same)
  then show ?case
    using Suc.IH by (simp only: be_nat_snoc) simp
qed

lemma be_nat_replicate_ff: "be_nat (replicate n (CHR 0xFF)) = 256 ^ n - 1"
proof (induction n)
  case 0
  then show ?case by (simp add: be_nat_def)
next
  case (Suc n)
  have r: "replicate (Suc n) (CHR 0xFF) = replicate n (CHR 0xFF) @ [CHR 0xFF]"
    by (simp add: replicate_append_same)
  have "(1::nat) \<le> 256 ^ n"
    by simp
  then have "256 * (256 ^ n - 1) + 255 = (256::nat) ^ Suc n - 1"
    by (simp add: algebra_simps)
  then show ?case
    using Suc.IH by (simp only: r be_nat_snoc) simp
qed

theorem secp256k1_key_range_checked_witness:
  "evm_generateWalletFromPassword test_primitives (replicate 32 (CHR 0x00)) ''battery'' ''staple'' 12
     = Inl InvalidKeyMaterial
   \<and> evm_main test_primitives (replicate 32 (CHR 0x00)) ''battery'' ''staple'' ''12''
     = Inl (Exit 1 (ErrorMessage InvalidKeyMaterial))
   \<and> evm_generateWalletFromPassword test_primitives (replicate 32 (CHR 0xFF)) ''battery'' ''staple'' 12
     = Inl InvalidKeyMaterial
   \<and> evm_generateWalletFromPassword test_primitives (replicate 31 (CHR 0x00) @ [CHR 0x01])
         ''battery'' ''staple'' 12
     = Inr \<lparr>evm_wallet =
              \<lparr>privateKey = ''0x'' @ toString_hex (replicate 31 (CHR 0x00) @ [CHR 0x01]),
               publicKey = secp256k1_public test_primitives 1,
               address = computeAddress test_primitives (secp256k1_public test_primitives 1)\<rparr>,
            evm_actualN = evm_N 12\<rparr>
   \<and> getBytes (''0x'' @ toString_hex (replicate 31 (CHR 0x00) @ [CHR 0x01]))
     = Some (replicate 31 (CHR 0x00) @ [CHR 0x01])"
proof -
  have p0: "pad_to 32 (replicate 32 (CHR 0x00)) = replicate 32 (CHR 0x00)"
    and p1: "pad_to 32 (replicate 32 (CHR 0xFF)) = replicate 32 (CHR 0xFF)"
    and p2: "pad_to 32 (replicate 31 (CHR 0x00) @ [CHR 0x01]) = replicate 31 (CHR 0x00) @ [CHR 0x01]"
    by (simp_all add: pad_to_id)
  have zero: "be_nat (replicate 32 (CHR 0x00)) = 0"
    by (rule be_nat_replicate_zero)
  have high: "curve_order \<le> be_nat (replicate 32 (CHR 0xFF))"
    by (simp add: be_nat_replicate_ff curve_order_def)
  have one: "be_nat (replicate 31 (CHR 0x00) @ [CHR 0x01]) = 1"
    by (simp add: be_nat_snoc be_nat_replicate_zero)
  have ok: "\<not> (1 = (0::nat) \<or> curve_order \<le> 1)"
    by (simp add: curve_order_def)
  have ne0: "replicate 32 (CHR 0x00) \<noteq> []" and ne1: "replicate 32 (CHR 0xFF) \<noteq> []"
    and ne2: "replicate 31 (CHR 0x00) @ [CHR 0x01] \<noteq> []"
    and ne3: "''battery'' \<noteq> []" and ne4: "''staple'' \<noteq> []"
    by simp_all
  note low = secp256k1_key_range_checked
      [OF test_evm_derivedKey_12 length_pad_to getNumber_12 ne0 ne3 ne4, unfolded p0 zero]
  note top = secp256k1_key_range_checked
      [OF test_evm_derivedKey_12 length_pad_to getNumber_12 ne1 ne3 ne4, unfolded p1]
  note mid = secp256k1_key_range_checked
      [OF test_evm_derivedKey_12 length_pad_to getNumber_12 ne2 ne3 ne4, unfolded p2 one]
  from low have a: "evm_generateWalletFromPassword test_primitives (replicate 32 (CHR 0x00))
      ''battery'' ''staple'' 12 = Inl InvalidKeyMaterial"
    and b: "evm_main test_primitives (replicate 32 (CHR 0x00)) ''battery'' ''staple'' ''12''
     = Inl (Exit 1 (ErrorMessage InvalidKeyMaterial))"
    by (simp_all only: simp_thms if_True)
  from top high have c: "evm_generateWalletFromPassword test_primitives (replicate 32 (CHR 0xFF))
      ''battery'' ''staple'' 12 = Inl InvalidKeyMaterial"
    by (simp only: simp_thms if_True)
  from mid ok have d: "evm_generateWalletFromPassword test_primitives
         (replicate 31 (CHR 0x00) @ [CHR 0x01]) ''battery'' ''staple'' 12
     = Inr \<lparr>evm_wallet =
              \<lparr>privateKey = ''0x'' @ toString_hex (replicate 31 (CHR 0x00) @ [CHR 0x01]),
               publicKey = secp256k1_public test_primitives 1,
               address = computeAddress test_primitives (secp256k1_public test_primitives 1)\<rparr>,
            evm_actualN = evm_N 12\<rparr>"
    and e: "getBytes (''0x'' @ toString_hex (replicate 31 (CHR 0x00) @ [CHR 0x01]))
      = Some (replicate 31 (CHR 0x00) @ [CHR 0x01])"
    by (simp_all only: simp_thms if_False)
  from a b c d e show ?thesis
    by (intro conjI)
qed

section \<open>The mixed-case checksum\<close>

lemma is_lower_hex_hexdigit: "n < 16 \<Longrightarrow> is_lower_hex (hexdigit n)"
  by (simp add: is_lower_hex_def hexdigit_def)

lemma lower_hex_toString_hex: "list_all is_lower_hex (toString_hex bs)"
proof (induction bs)
  case Nil
  then show ?case by (simp add: toString_hex_def)
next
  case (Cons b bs)
  have hi: "is_lower_hex (hexdigit ((of_char b :: nat) div 16))"
    by (rule is_lower_hex_hexdigit) (simp add: less_mult_imp_div_less)
  have lo: "is_lower_hex (hexdigit ((of_char b :: nat) mod 16))"
    by (rule is_lower_hex_hexdigit) simp
  have unfold: "toString_hex (b # bs)
      = hexdigit ((of_char b :: nat) div 16) # hexdigit ((of_char b :: nat) mod 16) # toString_hex bs"
    by (simp add: toString_hex_def)
  show ?case
    unfolding unfold using Cons.IH hi lo by simp
qed

lemma toLowerCase_lower_hex: "is_lower_hex c \<Longrightarrow> toLowerCase c = c"
  by (auto simp: is_lower_hex_def toLowerCase_def)

lemma toLowerCase_toUpperCase_lower_hex: "is_lower_hex c \<Longrightarrow> toLowerCase (toUpperCase c) = c"
proof -
  assume h: "is_lower_hex c"
  show ?thesis
  proof (cases "97 \<le> (of_char c :: nat)")
    case True
    with h have r: "(of_char c :: nat) \<le> 102"
      by (auto simp: is_lower_hex_def)
    have up: "toUpperCase c = char_of ((of_char c :: nat) - 32)"
      using True r by (simp add: toUpperCase_def)
    have v: "(of_char (char_of ((of_char c :: nat) - 32)) :: nat) = of_char c - 32"
      using True r by simp
    have lo: "65 \<le> (of_char c :: nat) - 32" and hi: "(of_char c :: nat) - 32 \<le> 90"
      using True r by arith+
    have undo: "char_of ((of_char c :: nat) - 32 + 32) = c"
      using True by simp
    show ?thesis
      unfolding up toLowerCase_def v using lo hi undo by simp
  next
    case False
    with h show ?thesis
      by (auto simp: is_lower_hex_def toLowerCase_def toUpperCase_def)
  qed
qed

lemma map_toLowerCase_lower_hex: "list_all is_lower_hex h \<Longrightarrow> map toLowerCase h = h"
  by (induction h) (simp_all add: toLowerCase_lower_hex)

lemma map_toLowerCase_toChecksum:
  assumes "list_all is_lower_hex h"
  shows "map toLowerCase (toChecksum P h) = h"
proof -
  have "map toLowerCase (toChecksum P h)
      = map (\<lambda>p. toLowerCase (if 8 \<le> nibble (keccak256 P h) (fst p) then toUpperCase (snd p) else snd p))
          (List.enumerate 0 h)"
    by (simp add: toChecksum_def case_prod_beta comp_def)
  also have "\<dots> = map snd (List.enumerate 0 h)"
  proof (rule map_cong [OF refl])
    fix p
    assume "p \<in> set (List.enumerate 0 h)"
    then have "snd p \<in> snd ` set (List.enumerate 0 h)"
      by (rule imageI)
    then have "snd p \<in> set (map snd (List.enumerate 0 h))"
      by (simp only: set_map)
    then have "snd p \<in> set h"
      by simp
    with assms have "is_lower_hex (snd p)"
      by (simp add: list_all_iff)
    then show "toLowerCase (if 8 \<le> nibble (keccak256 P h) (fst p) then toUpperCase (snd p) else snd p)
        = snd p"
      by (simp add: toLowerCase_lower_hex toLowerCase_toUpperCase_lower_hex)
  qed
  also have "\<dots> = h"
    by simp
  finally show ?thesis .
qed

lemma getAddress_of_hex:
  "getAddress P (''0x'' @ toString_hex bs) = ''0x'' @ toChecksum P (toString_hex bs)"
proof -
  have "map toLowerCase (''0x'' @ toString_hex bs) = ''0x'' @ toString_hex bs"
    by (simp add: map_toLowerCase_lower_hex lower_hex_toString_hex toLowerCase_def)
  then show ?thesis
    unfolding getAddress_def by simp
qed

lemma getAddress_idempotent:
  "getAddress P (map toLowerCase (getAddress P (''0x'' @ toString_hex bs)))
     = getAddress P (''0x'' @ toString_hex bs)"
proof -
  have l: "map toLowerCase (''0x'' @ toChecksum P (toString_hex bs)) = ''0x'' @ toString_hex bs"
    by (simp add: map_toLowerCase_toChecksum lower_hex_toString_hex toLowerCase_def)
  show ?thesis
    unfolding getAddress_of_hex l ..
qed

lemma computeAddress_idempotent:
  "getAddress P (map toLowerCase (computeAddress P pub)) = computeAddress P pub"
  unfolding computeAddress_def Let_def by (rule getAddress_idempotent)

lemma evm_generate_address:
  assumes "evm_generateWalletFromPassword P password userSalt applicationSalt e = Inr g"
  shows "\<exists>pub. address (evm_wallet g) = computeAddress P pub"
  using assms
  by (auto simp: evm_generateWalletFromPassword_def Wallet_def Let_def
      split: sum.splits option.splits if_splits)

text \<open>
  C10. For every account that \<^verbatim>\<open>generateWalletFromPassword\<close> of \<^verbatim>\<open>generator.js\<close> produces,
  lowercasing the address and applying the mixed-case checksum again (hash the lowercase
  hexadecimal text, uppercase each digit whose nibble of the digest is at least 8) gives
  the address back.
\<close>

theorem checksum_reproduces_address:
  assumes "evm_generateWalletFromPassword P password userSalt applicationSalt e = Inr g"
  shows "getAddress P (map toLowerCase (address (evm_wallet g))) = address (evm_wallet g)"
proof -
  from evm_generate_address [OF assms] obtain pub
    where "address (evm_wallet g) = computeAddress P pub" ..
  then show ?thesis
    by (simp add: computeAddress_idempotent)
qed


lemma test_evm_generate_one:
  "evm_generateWalletFromPassword test_primitives (replicate 31 (CHR 0x00) @ [CHR 0x01])
     ''battery'' ''staple'' 12
   = Inr \<lparr>evm_wallet =
            \<lparr>privateKey = ''0x'' @ toString_hex (replicate 31 (CHR 0x00) @ [CHR 0x01]),
             publicKey = secp256k1_public test_primitives 1,
             address = computeAddress test_primitives (secp256k1_public test_primitives 1)\<rparr>,
          evm_actualN = evm_N 12\<rparr>"
proof -
  have p: "pad_to 32 (replicate 31 (CHR 0x00) @ [CHR 0x01]) = replicate 31 (CHR 0x00) @ [CHR 0x01]"
    by (simp add: pad_to_id)
  have one: "be_nat (replicate 31 (CHR 0x00) @ [CHR 0x01]) = 1"
    by (simp add: be_nat_snoc be_nat_replicate_zero)
  have ok: "\<not> (1 = (0::nat) \<or> curve_order \<le> 1)"
    by (simp add: curve_order_def)
  from evm_generate_of_seed
      [OF test_evm_derivedKey_12
          [where pw = "replicate 31 (CHR 0x00) @ [CHR 0x01]" and us = "''battery''"
             and as = "''staple''"]
          length_pad_to, unfolded p one] ok
  show ?thesis
    by (simp only: simp_thms if_False)
qed

theorem checksum_reproduces_address_witness:
  "getAddress test_primitives
     (map toLowerCase (computeAddress test_primitives (secp256k1_public test_primitives 1)))
   = computeAddress test_primitives (secp256k1_public test_primitives 1)"
  using checksum_reproduces_address [OF test_evm_generate_one] by simp

section \<open>The Ed25519 account and its base-58 export\<close>

declare digits58.simps [simp del]
declare nat_to_bytes.simps [simp del]

lemma from_digits58_snoc: "from_digits58 (ds @ [d]) = 58 * from_digits58 ds + d"
  by (simp add: from_digits58_def)

lemma from_digits58_digits58: "from_digits58 (digits58 n) = n"
proof (induction n rule: digits58.induct)
  case (1 n)
  show ?case
  proof (cases "n = 0")
    case True
    then show ?thesis by (simp add: digits58.simps [of 0] from_digits58_def)
  next
    case False
    then have "digits58 n = digits58 (n div 58) @ [n mod 58]"
      by (subst digits58.simps) simp
    then show ?thesis
      using 1 False by (simp add: from_digits58_snoc)
  qed
qed

lemma digits58_lt: "list_all (\<lambda>d. d < 58) (digits58 n)"
proof (induction n rule: digits58.induct)
  case (1 n)
  show ?case
  proof (cases "n = 0")
    case True
    then show ?thesis by (simp add: digits58.simps [of 0])
  next
    case False
    then have "digits58 n = digits58 (n div 58) @ [n mod 58]"
      by (subst digits58.simps) simp
    then show ?thesis
      using 1 False by simp
  qed
qed

lemma digits58_empty_iff: "digits58 n = [] \<longleftrightarrow> n = 0"
  by (subst digits58.simps) simp

lemma digits58_hd: "n \<noteq> 0 \<Longrightarrow> hd (digits58 n) \<noteq> 0"
proof (induction n rule: digits58.induct)
  case (1 n)
  then have n: "n \<noteq> 0" by simp
  then have unfold: "digits58 n = digits58 (n div 58) @ [n mod 58]"
    by (subst digits58.simps) simp
  show ?case
  proof (cases "n div 58 = 0")
    case True
    then have "digits58 (n div 58) = []"
      by (simp add: digits58_empty_iff)
    moreover from True n have "n mod 58 \<noteq> 0"
      by presburger
    ultimately show ?thesis
      unfolding unfold by simp
  next
    case False
    then have "digits58 (n div 58) \<noteq> []"
      by (simp add: digits58_empty_iff)
    then have "hd (digits58 n) = hd (digits58 (n div 58))"
      unfolding unfold by simp
    with 1 n False show ?thesis
      by simp
  qed
qed

lemma takeWhile_zero_digits:
  "takeWhile (\<lambda>d. d = 0) (replicate z 0 @ digits58 n) = replicate z (0::nat)"
proof (cases "n = 0")
  case True
  then show ?thesis
    by (induction z) (simp_all add: digits58.simps [of 0])
next
  case False
  then have "digits58 n \<noteq> []" and "hd (digits58 n) \<noteq> 0"
    by (simp_all add: digits58_empty_iff digits58_hd)
  then have "takeWhile (\<lambda>d. d = 0) (digits58 n) = []"
    by (cases "digits58 n") simp_all
  then show ?thesis
    by (induction z) simp_all
qed

lemma from_digits58_leading_zeros: "from_digits58 (replicate z 0 @ ds) = from_digits58 ds"
  by (induction z) (simp_all add: from_digits58_def)

lemma length_alphabet: "length alphabet = 58"
  by (simp add: alphabet_def)

lemma distinct_alphabet: "distinct alphabet"
  by (simp add: alphabet_def)

lemma alphabet_index: "d < 58 \<Longrightarrow> map_of (zip alphabet [0..<58]) (alphabet ! d) = Some d"
proof -
  assume d: "d < 58"
  have "map_of (zip alphabet [0..<58]) (alphabet ! d) = Some ([0..<58] ! d)"
    by (rule map_of_zip_nth) (simp_all add: length_alphabet distinct_alphabet d)
  with d show ?thesis
    by simp
qed

lemma decode_digits_alphabet:
  "list_all (\<lambda>d. d < 58) ds \<Longrightarrow> decode_digits (map (\<lambda>d. alphabet ! d) ds) = Some ds"
  by (induction ds) (simp_all add: alphabet_index)


lemma of_char_zero_iff: "(of_char b :: nat) = 0 \<longleftrightarrow> is_zero_byte b"
proof
  assume "(of_char b :: nat) = 0"
  then have "(of_char b :: nat) = of_char (CHR 0x00)"
    by simp
  then have "b = CHR 0x00"
    by (simp only: of_char_eq_iff)
  then show "is_zero_byte b"
    by (simp add: is_zero_byte_def)
next
  assume "is_zero_byte b"
  then show "(of_char b :: nat) = 0"
    by (simp add: is_zero_byte_def)
qed

lemma be_nat_zero_iff: "be_nat bs = 0 \<longleftrightarrow> list_all is_zero_byte bs"
proof (induction bs rule: rev_induct)
  case Nil
  then show ?case by (simp add: be_nat_def)
next
  case (snoc b bs)
  then show ?case
    by (simp add: be_nat_snoc of_char_zero_iff)
qed

lemma nat_to_bytes_step:
  assumes "k < 256"
  shows "nat_to_bytes (256 * m + k) = (if m = 0 \<and> k = 0 then [] else nat_to_bytes m @ [char_of k])"
proof (cases "m = 0 \<and> k = 0")
  case True
  then show ?thesis by (simp add: nat_to_bytes.simps [of 0])
next
  case False
  then have nz: "256 * m + k \<noteq> 0" by simp
  have d: "(256 * m + k) div 256 = m" and r: "(256 * m + k) mod 256 = k"
    using assms by simp_all
  have "nat_to_bytes (256 * m + k)
      = nat_to_bytes ((256 * m + k) div 256) @ [char_of ((256 * m + k) mod 256)]"
    using nz by (subst nat_to_bytes.simps) simp
  with False show ?thesis
    by (simp only: d r if_False)
qed

lemma nat_to_bytes_be_nat: "nat_to_bytes (be_nat bs) = dropWhile is_zero_byte bs"
proof (induction bs rule: rev_induct)
  case Nil
  then show ?case by (simp add: be_nat_def nat_to_bytes.simps [of 0])
next
  case (snoc b bs)
  have k: "(of_char b :: nat) < 256"
    by simp
  have step: "nat_to_bytes (be_nat (bs @ [b]))
      = (if be_nat bs = 0 \<and> (of_char b :: nat) = 0 then []
         else nat_to_bytes (be_nat bs) @ [char_of (of_char b :: nat)])"
    unfolding be_nat_snoc by (rule nat_to_bytes_step [OF k])
  show ?case
  proof (cases "list_all is_zero_byte bs")
    case True
    then have z: "be_nat bs = 0" and dw: "dropWhile is_zero_byte bs = []"
      by (simp_all add: be_nat_zero_iff list_all_iff)
    have "dropWhile is_zero_byte (bs @ [b]) = dropWhile is_zero_byte [b]"
      using True by (simp add: dropWhile_append list_all_iff)
    then show ?thesis
      unfolding step using z snoc.IH dw by (simp add: of_char_zero_iff)
  next
    case False
    then have z: "be_nat bs \<noteq> 0"
      by (simp add: be_nat_zero_iff)
    have "dropWhile is_zero_byte (bs @ [b]) = dropWhile is_zero_byte bs @ [b]"
      using False by (simp add: dropWhile_append list_all_iff)
    then show ?thesis
      unfolding step using z snoc.IH by simp
  qed
qed

lemma leading_zero_bytes:
  "replicate (length (takeWhile is_zero_byte bs)) (CHR 0x00) @ dropWhile is_zero_byte bs = bs"
proof -
  have "takeWhile is_zero_byte bs = replicate (length (takeWhile is_zero_byte bs)) (CHR 0x00)"
    by (induction bs) (simp_all add: is_zero_byte_def)
  then have "replicate (length (takeWhile is_zero_byte bs)) (CHR 0x00) @ dropWhile is_zero_byte bs
      = takeWhile is_zero_byte bs @ dropWhile is_zero_byte bs"
    by simp
  then show ?thesis
    by simp
qed

lemma zeros_lt: "list_all (\<lambda>d. d < 58) (replicate z (0::nat))"
  by (induction z) simp_all

lemma bs58_decode_encode: "bs58_decode (bs58_encode bs) = Some bs"
proof -
  let ?z = "length (takeWhile is_zero_byte bs)"
  let ?ds = "replicate ?z 0 @ digits58 (be_nat bs)"
  have "list_all (\<lambda>d. d < 58) (replicate ?z (0::nat))"
    by (rule zeros_lt)
  then have "list_all (\<lambda>d. d < 58) ?ds"
    using digits58_lt [of "be_nat bs"] by simp
  then have dec: "decode_digits (bs58_encode bs) = Some ?ds"
    unfolding bs58_encode_def by (rule decode_digits_alphabet)
  have "bs58_decode (bs58_encode bs)
      = Some (replicate (length (takeWhile (\<lambda>d. d = 0) ?ds)) (CHR 0x00)
              @ nat_to_bytes (from_digits58 ?ds))"
    unfolding bs58_decode_def dec by simp
  also have "\<dots> = Some (replicate ?z (CHR 0x00) @ dropWhile is_zero_byte bs)"
    by (simp only: takeWhile_zero_digits from_digits58_leading_zeros from_digits58_digits58
        nat_to_bytes_be_nat length_replicate)
  also have "\<dots> = Some bs"
    by (simp only: leading_zero_bytes)
  finally show ?thesis .
qed


lemma sol_generate_of_seed:
  assumes "sol_derivedKey P password userSalt applicationSalt e = Inr seed"
  shows "sol_generateWalletFromPassword P password userSalt applicationSalt e =
     Inr \<lparr>sol_privateKey = bs58_encode (seed @ ed25519_public P seed),
          sol_publicKey = bs58_encode (ed25519_public P seed),
          sol_address = bs58_encode (ed25519_public P seed),
          sol_actualN = sol_N e\<rparr>"
  unfolding sol_generateWalletFromPassword_def assms sum.case
  by (simp add: Let_def getPublicKey_def)

text \<open>
  C8. In the pipeline of \<^verbatim>\<open>sol-generator.js\<close>, let the derivation return a 32-byte seed and
  let the Ed25519 public key of the seed be 32 bytes. Then the exported secret, which is also
  what \<^verbatim>\<open>main\<close> writes to the log file, decodes from base 58 to exactly 64 bytes: the first
  32 are the seed, the last 32 the public key. The address is the base-58 text of the public
  key alone.
\<close>

theorem ed25519_export_round_trip:
  assumes "sol_derivedKey P password userSalt applicationSalt e = Inr seed"
    and "length seed = 32"
    and "length (ed25519_public P seed) = 32"
    and "getNumber answer = Inr e"
    and "password \<noteq> []" and "userSalt \<noteq> []" and "applicationSalt \<noteq> []"
  shows "sol_generateWalletFromPassword P password userSalt applicationSalt e =
           Inr \<lparr>sol_privateKey = bs58_encode (seed @ ed25519_public P seed),
                sol_publicKey = bs58_encode (ed25519_public P seed),
                sol_address = bs58_encode (ed25519_public P seed),
                sol_actualN = sol_N e\<rparr>
       \<and> sol_main P password userSalt applicationSalt answer =
           Inr \<lparr>sol_shown_privateKey =
                  slice_first3 (bs58_encode (seed @ ed25519_public P seed)) @ ''...''
                    @ slice_last3 (bs58_encode (seed @ ed25519_public P seed)),
                sol_shown_address = bs58_encode (ed25519_public P seed),
                sol_shown_costParameter = e,
                sol_shown_actualN = sol_N e,
                sol_tmp_log = bs58_encode (seed @ ed25519_public P seed)\<rparr>
       \<and> bs58_decode (bs58_encode (seed @ ed25519_public P seed))
           = Some (seed @ ed25519_public P seed)
       \<and> length (seed @ ed25519_public P seed) = 64
       \<and> take 32 (seed @ ed25519_public P seed) = seed
       \<and> drop 32 (seed @ ed25519_public P seed) = ed25519_public P seed"
proof -
  note g = sol_generate_of_seed [OF assms(1)]
  have m: "sol_main P password userSalt applicationSalt answer =
      (case sol_generateWalletFromPassword P password userSalt applicationSalt e of
         Inl err \<Rightarrow> Inl (Exit 1 (ErrorMessage err))
       | Inr g \<Rightarrow>
           Inr \<lparr>sol_shown_privateKey =
                  slice_first3 (sol_privateKey g) @ ''...'' @ slice_last3 (sol_privateKey g),
                sol_shown_address = sol_address g,
                sol_shown_costParameter = e,
                sol_shown_actualN = sol_actualN g,
                sol_tmp_log = sol_privateKey g\<rparr>)"
    using assms(4-7) by (simp add: sol_main_def)
  show ?thesis
    unfolding m g bs58_decode_encode using assms(2,3) by simp
qed

lemma test_sol_derivedKey_12:
  "sol_derivedKey test_primitives pw us as 12 = Inr (pad_to 32 pw)"
  by (simp add: sol_derivedKey_cases test_maxmem test_scrypt)

lemma test_ed25519_length: "length (ed25519_public test_primitives seed) = 32"
  by (simp add: test_primitives_def length_pad_to)

theorem ed25519_export_round_trip_witness:
  "bs58_decode (sol_tmp_log (projr (sol_main test_primitives ''correct horse'' ''battery'' ''staple'' ''12'')))
     = Some (pad_to 32 ''correct horse''
             @ ed25519_public test_primitives (pad_to 32 ''correct horse''))
   \<and> length (pad_to 32 ''correct horse''
             @ ed25519_public test_primitives (pad_to 32 ''correct horse'')) = 64
   \<and> sol_address (projr (sol_generateWalletFromPassword test_primitives
         ''correct horse'' ''battery'' ''staple'' 12))
     = bs58_encode (ed25519_public test_primitives (pad_to 32 ''correct horse''))"
proof -
  have ne: "''correct horse'' \<noteq> []" "''battery'' \<noteq> []" "''staple'' \<noteq> []"
    by simp_all
  note t = ed25519_export_round_trip
      [OF test_sol_derivedKey_12 length_pad_to test_ed25519_length getNumber_12 ne]
  from t have g: "sol_generateWalletFromPassword test_primitives
        ''correct horse'' ''battery'' ''staple'' 12
      = Inr \<lparr>sol_privateKey = bs58_encode (pad_to 32 ''correct horse''
                 @ ed25519_public test_primitives (pad_to 32 ''correct horse'')),
             sol_publicKey = bs58_encode (ed25519_public test_primitives (pad_to 32 ''correct horse'')),
             sol_address = bs58_encode (ed25519_public test_primitives (pad_to 32 ''correct horse'')),
             sol_actualN = sol_N 12\<rparr>"
    by (rule conjunct1)
  from t have m: "sol_main test_primitives ''correct horse'' ''battery'' ''staple'' ''12''
      = Inr \<lparr>sol_shown_privateKey =
               slice_first3 (bs58_encode (pad_to 32 ''correct horse''
                 @ ed25519_public test_primitives (pad_to 32 ''correct horse''))) @ ''...''
               @ slice_last3 (bs58_encode (pad_to 32 ''correct horse''
                 @ ed25519_public test_primitives (pad_to 32 ''correct horse''))),
             sol_shown_address = bs58_encode (ed25519_public test_primitives (pad_to 32 ''correct horse'')),
             sol_shown_costParameter = 12,
             sol_shown_actualN = sol_N 12,
             sol_tmp_log = bs58_encode (pad_to 32 ''correct horse''
                 @ ed25519_public test_primitives (pad_to 32 ''correct horse''))\<rparr>"
    by (rule conjunct1 [OF conjunct2])
  from t have d: "bs58_decode (bs58_encode (pad_to 32 ''correct horse''
                 @ ed25519_public test_primitives (pad_to 32 ''correct horse'')))
      = Some (pad_to 32 ''correct horse''
             @ ed25519_public test_primitives (pad_to 32 ''correct horse''))"
    and l: "length (pad_to 32 ''correct horse''
             @ ed25519_public test_primitives (pad_to 32 ''correct horse'')) = 64"
    by (simp_all only: simp_thms)
  show ?thesis
    unfolding m g sum.sel using d l by (simp only: sol_report.simps sol_generated.simps simp_thms)
qed

section \<open>Determinism\<close>

lemma other_maxmem: "maxmem other_process = maxmem test_primitives"
  by (simp add: other_process_def)

lemma other_sha256_salt:
  "sha256 other_process (''battery'' @ ''staple'') = sha256 test_primitives (''battery'' @ ''staple'')"
  by (simp add: other_process_def test_sha256)

lemma other_sha256_elsewhere: "sha256 other_process ''staple'' \<noteq> sha256 test_primitives ''staple''"
proof -
  have "length (sha256 test_primitives ''staple'') = 32"
    by (rule test_sha256_length)
  moreover have "sha256 other_process ''staple'' = []"
    by (simp add: other_process_def)
  ultimately show ?thesis
    by auto
qed

lemma other_scrypt: "scrypt other_process = scrypt test_primitives"
  by (simp add: other_process_def)

lemma other_secp256k1: "secp256k1_public other_process = secp256k1_public test_primitives"
  by (simp add: other_process_def)

lemma other_ed25519: "ed25519_public other_process = ed25519_public test_primitives"
  by (simp add: other_process_def)

lemma other_keccak256: "keccak256 other_process = keccak256 test_primitives"
  by (simp add: other_process_def)

lemma other_computeAddress: "computeAddress other_process pub = computeAddress test_primitives pub"
  by (simp add: computeAddress_def getAddress_def toChecksum_def other_keccak256)


text \<open>
  C1. Take a password, a user salt, an application salt and a valid cost exponent, and run
  the derivation twice on them: once in a process with primitives \<open>P\<close>, once in a process
  with primitives \<open>P'\<close> of which nothing is known except that the ceiling is the same and
  that the library calls the pipeline makes return the same values. Then both runs of both
  pipelines derive the same seed, it is 32 bytes long and it is scrypt of the password and
  the hashed salts; both runs return the same account, which is the one built from that
  seed: for secp256k1 the private key is the hexadecimal text of the seed with the public
  key and address of its scalar, for Ed25519 the base-58 export of the seed followed by its
  public key with the base-58 public key as address. Nothing else of either process enters
  the result: no random source, no clock and no state left by an earlier run.
\<close>

theorem derivation_deterministic:
  assumes same: "password' = password" "userSalt' = userSalt"
      "applicationSalt' = applicationSalt" "costParameter' = costParameter"
    and valid: "0 < costParameter" "costParameter < 1024" "128 * 2 ^ costParameter * 8 \<le> maxmem P"
    and contract: "\<And>pw s N r p k. length (scrypt P pw s N r p k) = k"
    and seed: "seed = scrypt P password (sha256 P (userSalt @ applicationSalt))
                 (2 ^ costParameter) 8 1 32"
    and other: "maxmem P' = maxmem P"
      "sha256 P' (userSalt @ applicationSalt) = sha256 P (userSalt @ applicationSalt)"
      "scrypt P' password (sha256 P (userSalt @ applicationSalt)) (2 ^ costParameter) 8 1 32 = seed"
      "secp256k1_public P' (be_nat seed) = secp256k1_public P (be_nat seed)"
      "computeAddress P' (secp256k1_public P (be_nat seed))
         = computeAddress P (secp256k1_public P (be_nat seed))"
      "ed25519_public P' seed = ed25519_public P seed"
  shows "length seed = 32
       \<and> evm_derivedKey P password userSalt applicationSalt costParameter = Inr seed
       \<and> evm_derivedKey P' password' userSalt' applicationSalt' costParameter' = Inr seed
       \<and> sol_derivedKey P password userSalt applicationSalt costParameter = Inr seed
       \<and> sol_derivedKey P' password' userSalt' applicationSalt' costParameter' = Inr seed
       \<and> evm_generateWalletFromPassword P password userSalt applicationSalt costParameter
           = (if be_nat seed = 0 \<or> curve_order \<le> be_nat seed then Inl InvalidKeyMaterial
              else Inr \<lparr>evm_wallet =
                          \<lparr>privateKey = ''0x'' @ toString_hex seed,
                           publicKey = secp256k1_public P (be_nat seed),
                           address = computeAddress P (secp256k1_public P (be_nat seed))\<rparr>,
                        evm_actualN = enat (2 ^ costParameter)\<rparr>)
       \<and> evm_generateWalletFromPassword P' password' userSalt' applicationSalt' costParameter'
           = evm_generateWalletFromPassword P password userSalt applicationSalt costParameter
       \<and> sol_generateWalletFromPassword P password userSalt applicationSalt costParameter
           = Inr \<lparr>sol_privateKey = bs58_encode (seed @ ed25519_public P seed),
                  sol_publicKey = bs58_encode (ed25519_public P seed),
                  sol_address = bs58_encode (ed25519_public P seed),
                  sol_actualN = enat (2 ^ costParameter)\<rparr>
       \<and> sol_generateWalletFromPassword P' password' userSalt' applicationSalt' costParameter'
           = sol_generateWalletFromPassword P password userSalt applicationSalt costParameter"
proof -
  have len: "length seed = 32"
    unfolding seed by (rule contract)
  have n: "evm_N costParameter = enat (2 ^ costParameter)"
      "sol_N costParameter = enat (2 ^ costParameter)"
    using valid(2) by (simp_all add: evm_N_def sol_N_def js_pow2_def)
  have valid': "128 * 2 ^ costParameter * 8 \<le> maxmem P'"
    using valid(3) by (simp add: other(1))
  have d: "evm_derivedKey P password userSalt applicationSalt costParameter = Inr seed"
    using valid by (simp add: evm_derivedKey_cases evm_combinedSalt_def seed)
  have d': "evm_derivedKey P' password userSalt applicationSalt costParameter = Inr seed"
    using valid(1,2) valid' other(3) by (simp add: evm_derivedKey_cases evm_combinedSalt_def other(2))
  have s: "sol_derivedKey P password userSalt applicationSalt costParameter = Inr seed"
    using valid by (simp add: sol_derivedKey_cases sol_combinedSalt_def seed)
  have s': "sol_derivedKey P' password userSalt applicationSalt costParameter = Inr seed"
    using valid(1,2) valid' other(3) by (simp add: sol_derivedKey_cases sol_combinedSalt_def other(2))
  note g = evm_generate_of_seed [OF d len, unfolded n]
  note g' = evm_generate_of_seed [OF d' len, unfolded n other(4) other(5)]
  note h = sol_generate_of_seed [OF s, unfolded n]
  note h' = sol_generate_of_seed [OF s', unfolded n other(6)]
  have gg: "evm_generateWalletFromPassword P' password userSalt applicationSalt costParameter
      = evm_generateWalletFromPassword P password userSalt applicationSalt costParameter"
    by (simp only: g g')
  have hh: "sol_generateWalletFromPassword P' password userSalt applicationSalt costParameter
      = sol_generateWalletFromPassword P password userSalt applicationSalt costParameter"
    by (simp only: h h')
  show ?thesis
    unfolding same using len d d' s s' g gg h hh by (intro conjI)
qed

lemma other_scrypt_seed:
  "scrypt other_process ''correct horse'' (sha256 test_primitives (''battery'' @ ''staple''))
     (2 ^ 12) 8 1 32 = pad_to 32 ''correct horse''"
  by (simp only: other_scrypt test_scrypt)

theorem derivation_deterministic_witness:
  "length (pad_to 32 ''correct horse'') = 32
   \<and> evm_derivedKey test_primitives ''correct horse'' ''battery'' ''staple'' 12
       = Inr (pad_to 32 ''correct horse'')
   \<and> evm_derivedKey other_process ''correct horse'' ''battery'' ''staple'' 12
       = Inr (pad_to 32 ''correct horse'')
   \<and> sol_derivedKey test_primitives ''correct horse'' ''battery'' ''staple'' 12
       = Inr (pad_to 32 ''correct horse'')
   \<and> sol_derivedKey other_process ''correct horse'' ''battery'' ''staple'' 12
       = Inr (pad_to 32 ''correct horse'')
   \<and> evm_generateWalletFromPassword other_process ''correct horse'' ''battery'' ''staple'' 12
       = evm_generateWalletFromPassword test_primitives ''correct horse'' ''battery'' ''staple'' 12
   \<and> sol_generateWalletFromPassword other_process ''correct horse'' ''battery'' ''staple'' 12
       = sol_generateWalletFromPassword test_primitives ''correct horse'' ''battery'' ''staple'' 12"
proof -
  have v: "0 < (12::nat)" "(12::nat) < 1024" "128 * 2 ^ 12 * 8 \<le> maxmem test_primitives"
    by (simp_all add: test_maxmem)
  have sd: "pad_to 32 ''correct horse''
      = scrypt test_primitives ''correct horse'' (sha256 test_primitives (''battery'' @ ''staple''))
          (2 ^ 12) 8 1 32"
    by (simp only: test_scrypt)
  have o4: "secp256k1_public other_process (be_nat (pad_to 32 ''correct horse''))
      = secp256k1_public test_primitives (be_nat (pad_to 32 ''correct horse''))"
    by (simp only: other_secp256k1)
  have o6: "ed25519_public other_process (pad_to 32 ''correct horse'')
      = ed25519_public test_primitives (pad_to 32 ''correct horse'')"
    by (simp only: other_ed25519)
  note t = derivation_deterministic
      [OF refl refl refl refl v test_scrypt_length sd other_maxmem other_sha256_salt
          other_scrypt_seed o4 other_computeAddress o6]
  from t show ?thesis
    by (simp only: simp_thms)
qed

section \<open>The cost prompt\<close>

declare strip_leading.simps [simp del]

lemma strip_leading_none:
  assumes "\<And>w. w \<in> set ws \<Longrightarrow> w \<noteq> [] \<Longrightarrow> \<not> prefix w s"
  shows "strip_leading ws s = s"
proof -
  have "find (\<lambda>w. w \<noteq> [] \<and> prefix w s) ws = None"
    using assms by (auto simp: find_None_iff)
  then show ?thesis
    by (subst strip_leading.simps) simp
qed

lemma whitespace_heads:
  assumes "w \<in> set js_whitespace"
  shows "w \<noteq> [] \<and> ((of_char (hd w) :: nat) \<le> 32 \<or> 194 \<le> (of_char (hd w) :: nat))"
  using assms unfolding js_whitespace_def by auto

lemma js_trimStart_printable:
  assumes "33 \<le> (of_char c :: nat)" and "(of_char c :: nat) \<le> 127"
  shows "js_trimStart (c # s) = c # s"
  unfolding js_trimStart_def
proof (rule strip_leading_none)
  fix w
  assume w: "w \<in> set js_whitespace" and "w \<noteq> []"
  show "\<not> prefix w (c # s)"
  proof
    assume "prefix w (c # s)"
    with \<open>w \<noteq> []\<close> have "hd w = c"
      by (cases w) simp_all
    with whitespace_heads [OF w] assms show False
      by auto
  qed
qed

lemma takeWhile_digits:
  assumes "list_all is_digit ds" and "rest = [] \<or> \<not> is_digit (hd rest)"
  shows "takeWhile is_digit (ds @ rest) = ds"
proof -
  have r: "takeWhile is_digit rest = []"
    using assms(2) by (cases rest) auto
  from assms(1) show ?thesis
    by (induction ds) (simp_all add: r)
qed

lemma is_digit_range: "is_digit c \<Longrightarrow> 33 \<le> (of_char c :: nat) \<and> (of_char c :: nat) \<le> 127"
  by (simp add: is_digit_def)

lemma is_digit_not_sign: "is_digit c \<Longrightarrow> c \<noteq> CHR ''-'' \<and> c \<noteq> CHR ''+''"
  by (auto simp: is_digit_def)

lemma js_parseInt_unsigned:
  assumes "ds \<noteq> []" and "list_all is_digit ds" and "rest = [] \<or> \<not> is_digit (hd rest)"
  shows "js_parseInt (ds @ rest) = Some (int (decimal ds))"
proof -
  from assms(1) obtain c cs where ds: "ds = c # cs"
    by (cases ds) auto
  with assms(2) have c: "is_digit c"
    by simp
  have t: "js_trimStart (ds @ rest) = ds @ rest"
    unfolding ds using is_digit_range [OF c] by (simp add: js_trimStart_printable)
  have s: "take 1 (ds @ rest) \<noteq> ''-''" "take 1 (ds @ rest) \<noteq> ''+''"
    unfolding ds using is_digit_not_sign [OF c] by simp_all
  show ?thesis
    unfolding js_parseInt_def t Let_def
    using s assms(1) by (simp add: takeWhile_digits [OF assms(2,3)])
qed

lemma js_parseInt_plus:
  assumes "ds \<noteq> []" and "list_all is_digit ds" and "rest = [] \<or> \<not> is_digit (hd rest)"
  shows "js_parseInt (''+'' @ ds @ rest) = Some (int (decimal ds))"
proof -
  have t: "js_trimStart (''+'' @ ds @ rest) = ''+'' @ ds @ rest"
    by (simp add: js_trimStart_printable)
  show ?thesis
    unfolding js_parseInt_def t Let_def
    using assms(1) by (simp add: takeWhile_digits [OF assms(2,3)])
qed

lemma js_parseInt_minus:
  assumes "ds \<noteq> []" and "list_all is_digit ds" and "rest = [] \<or> \<not> is_digit (hd rest)"
  shows "js_parseInt (''-'' @ ds @ rest) = Some (- int (decimal ds))"
proof -
  have t: "js_trimStart (''-'' @ ds @ rest) = ''-'' @ ds @ rest"
    by (simp add: js_trimStart_printable)
  show ?thesis
    unfolding js_parseInt_def t Let_def
    using assms(1) by (simp add: takeWhile_digits [OF assms(2,3)])
qed

lemma js_parseInt_signed:
  assumes "sg = [] \<or> sg = ''+'' \<or> sg = ''-''"
    and "ds \<noteq> []" and "list_all is_digit ds" and "rest = [] \<or> \<not> is_digit (hd rest)"
  shows "js_parseInt (sg @ ds @ rest)
       = Some ((if sg = ''-'' then - 1 else 1) * int (decimal ds))"
  using assms(1) js_parseInt_unsigned [OF assms(2-4)] js_parseInt_plus [OF assms(2-4)]
    js_parseInt_minus [OF assms(2-4)]
  by auto


lemma getNumber_shape:
  assumes "js_trim answer = sg @ ds @ rest"
    and "sg = [] \<or> sg = ''+'' \<or> sg = ''-''"
    and "ds \<noteq> []" and "list_all is_digit ds"
    and "rest = [] \<or> \<not> is_digit (hd rest)"
  shows "getNumber answer =
     (if sg = ''-'' \<or> decimal ds = 0
      then Inl (Exit 1 (Literal (CHR 0x0A # ''Error: Please enter a valid positive number'')))
      else Inr (decimal ds))"
proof -
  have p: "js_parseInt (js_trim answer)
      = Some ((if sg = ''-'' then - 1 else 1) * int (decimal ds))"
    unfolding assms(1) by (rule js_parseInt_signed [OF assms(2-5)])
  show ?thesis
    unfolding getNumber_def p by auto
qed

lemma evm_main_rejected:
  "getNumber answer = Inl x \<Longrightarrow> evm_main P password userSalt applicationSalt answer = Inl x"
  by (simp add: evm_main_def)

lemma sol_main_rejected:
  "getNumber answer = Inl x \<Longrightarrow> sol_main P password userSalt applicationSalt answer = Inl x"
  by (simp add: sol_main_def)

lemma getNumber_NaN:
  "js_parseInt (js_trim answer) = None
   \<Longrightarrow> getNumber answer
       = Inl (Exit 1 (Literal (CHR 0x0A # ''Error: Please enter a valid positive number'')))"
  by (simp add: getNumber_def)

text \<open>
  C5, amended: the answer at the cost prompt is trimmed and read by \<^verbatim>\<open>parseInt\<close> in radix
  10. When the trimmed answer is an optional sign, a run of decimal digits (of value up to
  \<open>2 ^ 53\<close>) and then anything that does not continue the run, \<^verbatim>\<open>getNumber\<close> takes the value
  of the run: if the sign is minus or the value is zero, both programs exit with status 1
  and the line \<^verbatim>\<open>Error: Please enter a valid positive number\<close> before anything is derived;
  otherwise the value is accepted as the cost exponent, whatever follows the digits, and the
  derivation does not fail with InvalidParameter. When \<^verbatim>\<open>parseInt\<close> finds no number at all,
  both programs exit in the same way.
\<close>

theorem cost_answer_read_by_parseInt:
  assumes "js_trim answer = sg @ ds @ rest"
    and "sg = [] \<or> sg = ''+'' \<or> sg = ''-''"
    and "ds \<noteq> []" and "list_all is_digit ds"
    and "rest = [] \<or> \<not> is_digit (hd rest)"
    and "decimal ds \<le> 2 ^ 53"
  shows "getNumber answer =
           (if sg = ''-'' \<or> decimal ds = 0
            then Inl (Exit 1 (Literal (CHR 0x0A # ''Error: Please enter a valid positive number'')))
            else Inr (decimal ds))
       \<and> (sg = ''-'' \<or> decimal ds = 0 \<longrightarrow>
            evm_main P password userSalt applicationSalt answer
              = Inl (Exit 1 (Literal (CHR 0x0A # ''Error: Please enter a valid positive number'')))
          \<and> sol_main P password userSalt applicationSalt answer
              = Inl (Exit 1 (Literal (CHR 0x0A # ''Error: Please enter a valid positive number''))))
       \<and> (sg \<noteq> ''-'' \<and> 0 < decimal ds \<longrightarrow>
            evm_derivedKey P password userSalt applicationSalt (decimal ds) \<noteq> Inl InvalidParameter
          \<and> sol_derivedKey P password userSalt applicationSalt (decimal ds) \<noteq> Inl InvalidParameter)
       \<and> (js_parseInt (js_trim other) = None \<longrightarrow>
            getNumber other
              = Inl (Exit 1 (Literal (CHR 0x0A # ''Error: Please enter a valid positive number'')))
          \<and> evm_main P password userSalt applicationSalt other
              = Inl (Exit 1 (Literal (CHR 0x0A # ''Error: Please enter a valid positive number'')))
          \<and> sol_main P password userSalt applicationSalt other
              = Inl (Exit 1 (Literal (CHR 0x0A # ''Error: Please enter a valid positive number''))))"
proof -
  note g = getNumber_shape [OF assms(1-5)]
  have a: "sg = ''-'' \<or> decimal ds = 0 \<Longrightarrow>
      evm_main P password userSalt applicationSalt answer
        = Inl (Exit 1 (Literal (CHR 0x0A # ''Error: Please enter a valid positive number'')))
      \<and> sol_main P password userSalt applicationSalt answer
        = Inl (Exit 1 (Literal (CHR 0x0A # ''Error: Please enter a valid positive number'')))"
  proof -
    assume "sg = ''-'' \<or> decimal ds = 0"
    with g have "getNumber answer
        = Inl (Exit 1 (Literal (CHR 0x0A # ''Error: Please enter a valid positive number'')))"
      by simp
    then show ?thesis
      by (simp only: evm_main_rejected sol_main_rejected simp_thms)
  qed
  have b: "0 < decimal ds \<Longrightarrow>
      evm_derivedKey P password userSalt applicationSalt (decimal ds) \<noteq> Inl InvalidParameter
      \<and> sol_derivedKey P password userSalt applicationSalt (decimal ds) \<noteq> Inl InvalidParameter"
    by (simp add: evm_derivedKey_cases sol_derivedKey_cases)
  have c: "js_parseInt (js_trim other) = None \<Longrightarrow>
      getNumber other
        = Inl (Exit 1 (Literal (CHR 0x0A # ''Error: Please enter a valid positive number'')))
      \<and> evm_main P password userSalt applicationSalt other
        = Inl (Exit 1 (Literal (CHR 0x0A # ''Error: Please enter a valid positive number'')))
      \<and> sol_main P password userSalt applicationSalt other
        = Inl (Exit 1 (Literal (CHR 0x0A # ''Error: Please enter a valid positive number'')))"
  proof -
    assume "js_parseInt (js_trim other) = None"
    then have "getNumber other
        = Inl (Exit 1 (Literal (CHR 0x0A # ''Error: Please enter a valid positive number'')))"
      by (rule getNumber_NaN)
    then show ?thesis
      by (simp only: evm_main_rejected sol_main_rejected simp_thms)
  qed
  from g a b c show ?thesis
    by blast
qed


lemma trim_14_5: "js_trim ''14.5'' = [] @ ''14'' @ ''.5''"
  by code_simp

lemma trim_minus_3: "js_trim ''-3'' = ''-'' @ ''3'' @ []"
  by code_simp

lemma trim_0: "js_trim ''0'' = [] @ ''0'' @ []"
  by code_simp

lemma parse_abc: "js_parseInt (js_trim ''abc'') = None"
  by code_simp

lemma digits_14: "list_all is_digit ''14''" and digits_3: "list_all is_digit ''3''"
  and digits_0: "list_all is_digit ''0''" and not_digit_dot: "\<not> is_digit (hd ''.5'')"
  by (simp_all add: is_digit_def)

lemma decimal_14: "decimal ''14'' = 14" and decimal_3: "decimal ''3'' = 3"
  and decimal_0: "decimal ''0'' = 0"
  by (simp_all add: decimal_def)

theorem cost_answer_read_by_parseInt_witness:
  "getNumber ''14.5'' = Inr 14
   \<and> evm_derivedKey test_primitives ''correct horse'' ''battery'' ''staple'' 14
       \<noteq> Inl InvalidParameter
   \<and> sol_derivedKey test_primitives ''correct horse'' ''battery'' ''staple'' 14
       \<noteq> Inl InvalidParameter
   \<and> evm_main test_primitives ''correct horse'' ''battery'' ''staple'' ''-3''
       = Inl (Exit 1 (Literal (CHR 0x0A # ''Error: Please enter a valid positive number'')))
   \<and> sol_main test_primitives ''correct horse'' ''battery'' ''staple'' ''0''
       = Inl (Exit 1 (Literal (CHR 0x0A # ''Error: Please enter a valid positive number'')))
   \<and> evm_main test_primitives ''correct horse'' ''battery'' ''staple'' ''abc''
       = Inl (Exit 1 (Literal (CHR 0x0A # ''Error: Please enter a valid positive number'')))"
proof -
  have ne: "''14'' \<noteq> []" "''3'' \<noteq> []" "''0'' \<noteq> []"
    by simp_all
  have le: "decimal ''14'' \<le> 2 ^ 53" "decimal ''3'' \<le> 2 ^ 53" "decimal ''0'' \<le> 2 ^ 53"
    by (simp_all add: decimal_14 decimal_3 decimal_0)
  have sg0: "([]::string) = [] \<or> ([]::string) = ''+'' \<or> ([]::string) = ''-''"
    and sgm: "''-'' = [] \<or> ''-'' = ''+'' \<or> ''-'' = ''-''"
    by simp_all
  have r0: "([]::string) = [] \<or> \<not> is_digit (hd [])"
    and r5: "''.5'' = [] \<or> \<not> is_digit (hd ''.5'')"
    using not_digit_dot by simp_all
  note accepted = cost_answer_read_by_parseInt
      [OF trim_14_5 sg0 ne(1) digits_14 r5 le(1),
        where P = test_primitives and password = "''correct horse''" and userSalt = "''battery''"
          and applicationSalt = "''staple''" and other = "''abc''"]
  note negative = cost_answer_read_by_parseInt
      [OF trim_minus_3 sgm ne(2) digits_3 r0 le(2),
        where P = test_primitives and password = "''correct horse''" and userSalt = "''battery''"
          and applicationSalt = "''staple''" and other = "''abc''"]
  note zero = cost_answer_read_by_parseInt
      [OF trim_0 sg0 ne(3) digits_0 r0 le(3),
        where P = test_primitives and password = "''correct horse''" and userSalt = "''battery''"
          and applicationSalt = "''staple''" and other = "''abc''"]
  have a: "getNumber ''14.5'' = Inr 14"
    and b: "evm_derivedKey test_primitives ''correct horse'' ''battery'' ''staple'' 14
       \<noteq> Inl InvalidParameter"
    and c: "sol_derivedKey test_primitives ''correct horse'' ''battery'' ''staple'' 14
       \<noteq> Inl InvalidParameter"
    using accepted unfolding decimal_14 by simp_all
  have d: "evm_main test_primitives ''correct horse'' ''battery'' ''staple'' ''-3''
       = Inl (Exit 1 (Literal (CHR 0x0A # ''Error: Please enter a valid positive number'')))"
    using negative by simp
  have e: "sol_main test_primitives ''correct horse'' ''battery'' ''staple'' ''0''
       = Inl (Exit 1 (Literal (CHR 0x0A # ''Error: Please enter a valid positive number'')))"
    using zero unfolding decimal_0 by simp
  have f: "evm_main test_primitives ''correct horse'' ''battery'' ''staple'' ''abc''
       = Inl (Exit 1 (Literal (CHR 0x0A # ''Error: Please enter a valid positive number'')))"
    using accepted parse_abc by simp
  from a b c d e f show ?thesis
    by (intro conjI)
qed


lemma evm_main_of_seed:
  assumes "getNumber answer = Inr e"
    and "password \<noteq> []" and "userSalt \<noteq> []" and "applicationSalt \<noteq> []"
    and "evm_derivedKey P password userSalt applicationSalt e = Inr seed"
    and "length seed = 32"
  shows "evm_main P password userSalt applicationSalt answer =
     (if be_nat seed = 0 \<or> curve_order \<le> be_nat seed
      then Inl (Exit 1 (ErrorMessage InvalidKeyMaterial))
      else Inr \<lparr>evm_shown_privateKey =
                  slice_first3 (''0x'' @ toString_hex seed) @ ''...''
                    @ slice_last3 (''0x'' @ toString_hex seed),
                evm_shown_address = computeAddress P (secp256k1_public P (be_nat seed)),
                evm_shown_costParameter = e,
                evm_shown_actualN = evm_N e,
                evm_tmp_log = ''0x'' @ toString_hex seed\<rparr>)"
proof -
  note g = evm_generate_of_seed [OF assms(5,6)]
  have m: "evm_main P password userSalt applicationSalt answer =
      (case evm_generateWalletFromPassword P password userSalt applicationSalt e of
         Inl err \<Rightarrow> Inl (Exit 1 (ErrorMessage err))
       | Inr g \<Rightarrow>
           Inr \<lparr>evm_shown_privateKey =
                  slice_first3 (privateKey (evm_wallet g)) @ ''...''
                    @ slice_last3 (privateKey (evm_wallet g)),
                evm_shown_address = address (evm_wallet g),
                evm_shown_costParameter = e,
                evm_shown_actualN = evm_actualN g,
                evm_tmp_log = privateKey (evm_wallet g)\<rparr>)"
    using assms(1-4) by (simp add: evm_main_def)
  show ?thesis
    unfolding m g by simp
qed

lemma test_evm_derivedKey_14:
  "evm_derivedKey test_primitives pw us as 14 = Inr (pad_to 32 pw)"
  by (simp add: evm_derivedKey_cases test_maxmem test_scrypt)

lemma getNumber_14_5: "getNumber ''14.5'' = Inr 14"
  by code_simp

text \<open>
  C5, as stated: every answer at the cost prompt that is not an integer makes the pipeline
  fail with InvalidParameter and produce no account. It does not: \<^verbatim>\<open>14.5\<close> is not an integer,
  but \<^verbatim>\<open>parseInt\<close> reads its leading digits, \<^verbatim>\<open>getNumber\<close> resolves 14, and \<^verbatim>\<open>main\<close> goes on
  to report an account derived at \<open>N = 2 ^ 14\<close>.
\<close>

theorem cost_answer_fraction_counterexample:
  "getNumber ''14.5'' = Inr 14
   \<and> evm_main test_primitives (replicate 31 (CHR 0x00) @ [CHR 0x01]) ''battery'' ''staple'' ''14.5''
     = Inr \<lparr>evm_shown_privateKey =
              slice_first3 (''0x'' @ toString_hex (replicate 31 (CHR 0x00) @ [CHR 0x01])) @ ''...''
                @ slice_last3 (''0x'' @ toString_hex (replicate 31 (CHR 0x00) @ [CHR 0x01])),
            evm_shown_address = computeAddress test_primitives (secp256k1_public test_primitives 1),
            evm_shown_costParameter = 14,
            evm_shown_actualN = 16384,
            evm_tmp_log = ''0x'' @ toString_hex (replicate 31 (CHR 0x00) @ [CHR 0x01])\<rparr>"
proof -
  have p: "pad_to 32 (replicate 31 (CHR 0x00) @ [CHR 0x01]) = replicate 31 (CHR 0x00) @ [CHR 0x01]"
    by (simp add: pad_to_id)
  have one: "be_nat (replicate 31 (CHR 0x00) @ [CHR 0x01]) = 1"
    by (simp add: be_nat_snoc be_nat_replicate_zero)
  have ok: "\<not> (1 = (0::nat) \<or> curve_order \<le> 1)"
    by (simp add: curve_order_def)
  have n: "evm_N 14 = 16384"
    by (simp add: evm_N_def js_pow2_def numeral_eq_enat)
  have ne: "replicate 31 (CHR 0x00) @ [CHR 0x01] \<noteq> []" "''battery'' \<noteq> []" "''staple'' \<noteq> []"
    by simp_all
  note m = evm_main_of_seed
      [OF getNumber_14_5 ne test_evm_derivedKey_14 length_pad_to, unfolded p one n]
  from m ok have "evm_main test_primitives (replicate 31 (CHR 0x00) @ [CHR 0x01])
        ''battery'' ''staple'' ''14.5''
     = Inr \<lparr>evm_shown_privateKey =
              slice_first3 (''0x'' @ toString_hex (replicate 31 (CHR 0x00) @ [CHR 0x01])) @ ''...''
                @ slice_last3 (''0x'' @ toString_hex (replicate 31 (CHR 0x00) @ [CHR 0x01])),
            evm_shown_address = computeAddress test_primitives (secp256k1_public test_primitives 1),
            evm_shown_costParameter = 14,
            evm_shown_actualN = 16384,
            evm_tmp_log = ''0x'' @ toString_hex (replicate 31 (CHR 0x00) @ [CHR 0x01])\<rparr>"
    by (simp only: simp_thms if_False)
  with getNumber_14_5 show ?thesis
    by (intro conjI)
qed

end
